theory Spec2Isabelle
  imports Complex_Main "HOL-Library.Log_Nat"
begin

section \<open>Python values and exceptions\<close>

text \<open>
  The development embeds the four source files of the repository:
  \<^verbatim>\<open>tile_ortho.py\<close> and the three scripts that drive it.  Exceptions are
  values of \<open>py_error\<close>; a function that can raise returns \<open>py_error + 'a\<close>.
\<close>

datatype py_error =
    ZeroDivisionError
  | ValueError string
  | AssertionError string
  | KeyError string
  | RasterioIOError

text \<open>Python's \<^verbatim>\<open>str\<close> of an integer, as an f-string renders it.\<close>

definition digit_char :: "nat \<Rightarrow> char" where
  "digit_char d =
     (if d = 0 then CHR ''0'' else if d = 1 then CHR ''1'' else if d = 2 then CHR ''2''
      else if d = 3 then CHR ''3'' else if d = 4 then CHR ''4'' else if d = 5 then CHR ''5''
      else if d = 6 then CHR ''6'' else if d = 7 then CHR ''7'' else if d = 8 then CHR ''8''
      else CHR ''9'')"

fun str_nat :: "nat \<Rightarrow> string" where
  "str_nat n = (if n < 10 then [digit_char n] else str_nat (n div 10) @ [digit_char (n mod 10)])"

declare str_nat.simps [simp del]

definition str_int :: "int \<Rightarrow> string" where
  "str_int k = (if k < 0 then CHR ''-'' # str_nat (nat (- k)) else str_nat (nat k))"

section \<open>tile\_ortho.py: alpha normalisation\<close>

text \<open>
  \<^verbatim>\<open>src.read()\<close> gives an array of shape (bands, height, width): a list of bands,
  each a list of rows.  A file holds the raster's profile and its bands; the band
  count \<^verbatim>\<open>src.count\<close> is the number of bands.  The file system is a map from
  paths to files.
\<close>

type_synonym 'a band = "'a list list"

record ('a, 'm) geotiff =
  profile :: 'm
  bands :: "'a band list"

type_synonym ('a, 'm) filesystem = "string \<rightharpoonup> ('a, 'm) geotiff"

text \<open>\<^verbatim>\<open>alpha_mask = a == 0\<close> and the masked assignment \<^verbatim>\<open>r[alpha_mask] = 255\<close>.\<close>

definition alpha_mask :: "'a::zero band \<Rightarrow> bool list list" where
  "alpha_mask a = map (map (\<lambda>p. p = 0)) a"

definition assign_masked :: "'a band \<Rightarrow> bool list list \<Rightarrow> 'a \<Rightarrow> 'a band" where
  "assign_masked r msk v = map2 (\<lambda>row mrow. map2 (\<lambda>p m. if m then v else p) row mrow) r msk"

definition unsupported_band_count :: "nat \<Rightarrow> py_error" where
  "unsupported_band_count n = ValueError (''Unsupported band count: '' @ str_nat n)"

definition rgb_of_bands :: "'a::{zero,numeral} band list \<Rightarrow> py_error + 'a band list" where
  "rgb_of_bands bs =
     (case bs of
        [r, g, b, a] \<Rightarrow>
          let msk = alpha_mask a
          in Inr [assign_masked r msk 255, assign_masked g msk 255, assign_masked b msk 255]
      | [r, g, b] \<Rightarrow> Inr bs
      | _ \<Rightarrow> Inl (unsupported_band_count (length bs)))"

definition replace_geotiff_alpha ::
  "('a::{zero,numeral}, 'm) filesystem \<Rightarrow> string \<Rightarrow> string \<Rightarrow> py_error + ('a, 'm) filesystem" where
  "replace_geotiff_alpha fs input_path output_path =
     (case fs input_path of
        None \<Rightarrow> Inl RasterioIOError
      | Some src \<Rightarrow>
          (case rgb_of_bands (bands src) of
             Inl e \<Rightarrow> Inl e
           | Inr rgb_data \<Rightarrow> Inr (fs(output_path \<mapsto> src\<lparr>bands := rgb_data\<rparr>))))"

text \<open>A band of the given height and width.\<close>

definition has_shape :: "nat \<Rightarrow> nat \<Rightarrow> 'a band \<Rightarrow> bool" where
  "has_shape h w band \<longleftrightarrow> length band = h \<and> list_all (\<lambda>row. length row = w) band"

section \<open>Numbers\<close>

text \<open>
  A Python \<^verbatim>\<open>float\<close> holds a rational number; the model computes with \<open>real\<close>.
  Every function that computes with floats takes the rounding of its operations as a
  parameter \<open>rnd\<close>, applied to the result of every float operation and to every
  conversion of an \<^verbatim>\<open>int\<close> variable to a float, so that the code can be read both
  exactly (\<open>exact\<close>) and with the rounding of an IEEE 754 double (\<open>binary64\<close>), which
  is what Python computes.
\<close>

type_synonym point = "real \<times> real"

text \<open>A bounding box \<^verbatim>\<open>(min_x, min_y, max_x, max_y)\<close>.\<close>

type_synonym bbox = "real \<times> real \<times> real \<times> real"

text \<open>\<^verbatim>\<open>int(x)\<close> of a float truncates towards zero.\<close>

definition py_int :: "real \<Rightarrow> int" where
  "py_int x = (if 0 \<le> x then \<lfloor>x\<rfloor> else \<lceil>x\<rceil>)"

definition exact :: "real \<Rightarrow> real" where
  "exact x = x"

text \<open>
  Rounding to the nearest double, ties to even.  \<open>binexp x\<close> is the exponent \<open>e\<close>
  with \<open>2 ^ e \<le> \<bar>x\<bar> < 2 ^ (e + 1)\<close>, found from the bit length of the integer
  part (of the reciprocal when \<open>\<bar>x\<bar> < 1\<close>).  The significand has 53 bits, so the
  doubles around \<open>x\<close> are \<open>2 ^ (e - 52)\<close> apart, and \<open>2 ^ - 1074\<close> apart in the
  subnormal range.  The exponent is not bounded above: a Python operation whose result
  reaches \<open>2 ^ 1024\<close> gives an infinity, which the model does not have, so the model
  is that of a double as long as no operation overflows.
\<close>

definition binexp :: "real \<Rightarrow> int" where
  "binexp x = (if 1 \<le> \<bar>x\<bar> then bitlen \<lfloor>\<bar>x\<bar>\<rfloor> - 1 else - bitlen (\<lceil>1 / \<bar>x\<bar>\<rceil> - 1))"

definition pow2 :: "int \<Rightarrow> real" where
  "pow2 e = (if 0 \<le> e then 2 ^ nat e else 1 / 2 ^ nat (- e))"

definition round_half_even :: "real \<Rightarrow> int" where
  "round_half_even y =
     (let f = \<lfloor>y\<rfloor>; d = y - of_int f
      in if d < 1 / 2 then f else if 1 / 2 < d then f + 1 else if even f then f else f + 1)"

definition binary64 :: "real \<Rightarrow> real" where
  "binary64 x =
     (if x = 0 then 0
      else let ulp = pow2 (max (binexp x - 52) (- 1074))
           in of_int (round_half_even (x / ulp)) * ulp)"

section \<open>Geometry\<close>

text \<open>
  Geometry is shapely's.  What the code passes to it is kept as a term: an input
  geometry of the caller (\<open>Geom\<close>), \<^verbatim>\<open>shapely.geometry.box\<close>,
  \<^verbatim>\<open>a.intersection(b)\<close>, \<^verbatim>\<open>g.buffer(distance, join_style=2)\<close> and
  \<^verbatim>\<open>g.clip(bounds)\<close> with a rectangle.  \<open>points\<close> reads a term as the set of
  points it covers, given the point set of every input geometry and what buffering
  does to a point set.
\<close>

datatype 'g shape =
    Geom 'g
  | Box real real real real
  | Intersection "'g shape" "'g shape"
  | Buffer "'g shape" real
  | ClipRect "'g shape" bbox

definition rect :: "bbox \<Rightarrow> point set" where
  "rect b = (case b of (min_x, min_y, max_x, max_y) \<Rightarrow>
     {p. min_x \<le> fst p \<and> fst p \<le> max_x \<and> min_y \<le> snd p \<and> snd p \<le> max_y})"

definition interior :: "bbox \<Rightarrow> point set" where
  "interior b = (case b of (min_x, min_y, max_x, max_y) \<Rightarrow>
     {p. min_x < fst p \<and> fst p < max_x \<and> min_y < snd p \<and> snd p < max_y})"

fun points :: "('g \<Rightarrow> point set) \<Rightarrow> (real \<Rightarrow> point set \<Rightarrow> point set) \<Rightarrow> 'g shape \<Rightarrow> point set" where
  "points pts buf (Geom g) = pts g"
| "points pts buf (Box x1 y1 x2 y2) = rect (x1, y1, x2, y2)"
| "points pts buf (Intersection a b) = points pts buf a \<inter> points pts buf b"
| "points pts buf (Buffer a d) = buf d (points pts buf a)"
| "points pts buf (ClipRect a b) = points pts buf a \<inter> rect b"

section \<open>tile\_ortho.py: the tile grid\<close>

text \<open>The width and the height of a bounding box.\<close>

definition bbox_width :: "bbox \<Rightarrow> real" where
  "bbox_width b = (case b of (min_x, min_y, max_x, max_y) \<Rightarrow> max_x - min_x)"

definition bbox_height :: "bbox \<Rightarrow> real" where
  "bbox_height b = (case b of (min_x, min_y, max_x, max_y) \<Rightarrow> max_y - min_y)"


text \<open>
  A row of the areas table is its fields (every column but the last, by name) and its
  geometry (the last column).  \<^verbatim>\<open>row.geometry.bounds\<close> is the parameter
  \<open>bounds_of\<close>.
\<close>

type_synonym fields = "(string \<times> string) list"

text \<open>
  \<^verbatim>\<open>min_x + i * tile_width_m\<close>, with the integer \<open>i\<close> converted to a float, the
  product rounded and the sum rounded.  The code writes this expression for the edges of
  a cell, with \<open>i\<close> and with \<open>i + 1\<close>, and again for the tile id.
\<close>

definition cell_edge :: "(real \<Rightarrow> real) \<Rightarrow> real \<Rightarrow> real \<Rightarrow> nat \<Rightarrow> real" where
  "cell_edge rnd lo tile_size_m i = rnd (lo + rnd (rnd (of_nat i) * tile_size_m))"

definition grid_cell :: "(real \<Rightarrow> real) \<Rightarrow> real \<Rightarrow> real \<Rightarrow> real \<Rightarrow> real \<Rightarrow> nat \<Rightarrow> nat \<Rightarrow> bbox" where
  "grid_cell rnd min_x min_y tile_width_m tile_height_m i j =
     (cell_edge rnd min_x tile_width_m i,
      cell_edge rnd min_y tile_height_m j,
      cell_edge rnd min_x tile_width_m (i + 1),
      cell_edge rnd min_y tile_height_m (j + 1))"

definition tile_id_of :: "(real \<Rightarrow> real) \<Rightarrow> real \<Rightarrow> real \<Rightarrow> real \<Rightarrow> real \<Rightarrow> nat \<Rightarrow> nat \<Rightarrow> string" where
  "tile_id_of rnd min_x min_y tile_width_m tile_height_m i j =
     (let min_x_rounded = py_int (cell_edge rnd min_x tile_width_m i);
          min_y_rounded = py_int (cell_edge rnd min_y tile_height_m j)
      in str_int min_x_rounded @ ''_'' @ str_int min_y_rounded)"

definition box_of :: "bbox \<Rightarrow> 'g shape" where
  "box_of b = (case b of (x1, y1, x2, y2) \<Rightarrow> Box x1 y1 x2 y2)"

text \<open>
  The inner loop, over \<^verbatim>\<open>itertools.product(range(n_cols), range(n_rows))\<close>: one
  record per pair, none when a count is not positive.
\<close>

definition grid_tiles ::
  "(real \<Rightarrow> real) \<Rightarrow> real \<Rightarrow> real \<Rightarrow> real \<Rightarrow> real \<Rightarrow> int \<Rightarrow> int \<Rightarrow> fields \<Rightarrow> 'g shape
     \<Rightarrow> (string \<times> fields \<times> 'g shape) list" where
  "grid_tiles rnd min_x min_y tile_width_m tile_height_m n_cols n_rows row_fields geometry =
     map (\<lambda>(i, j).
            (tile_id_of rnd min_x min_y tile_width_m tile_height_m i j,
             row_fields,
             Intersection (box_of (grid_cell rnd min_x min_y tile_width_m tile_height_m i j)) geometry))
       (List.product [0..<nat n_cols] [0..<nat n_rows])"

text \<open>
  The body of the loop over the rows.  A float division by zero raises; the four
  divisions are tested in the order the code performs them.  The integers \<open>n_cols\<close>
  and \<open>n_rows\<close> are converted to floats before the width and the height are divided
  by them, and it is the converted divisor that is tested.
\<close>

definition tiles_of_row ::
  "(real \<Rightarrow> real) \<Rightarrow> ('g shape \<Rightarrow> bbox) \<Rightarrow> real \<Rightarrow> real \<Rightarrow> fields \<times> 'g shape
     \<Rightarrow> py_error + (string \<times> fields \<times> 'g shape) list" where
  "tiles_of_row rnd bounds_of max_tile_width_m max_tile_height_m row =
     (case row of (row_fields, geometry) \<Rightarrow>
      case bounds_of geometry of (min_x, min_y, max_x, max_y) \<Rightarrow>
        let width = rnd (max_x - min_x);
            height = rnd (max_y - min_y)
        in if max_tile_width_m = 0 then Inl ZeroDivisionError
           else let n_cols = \<lceil>rnd (width / max_tile_width_m)\<rceil>
           in if max_tile_height_m = 0 then Inl ZeroDivisionError
           else let n_rows = \<lceil>rnd (height / max_tile_height_m)\<rceil>
           in if rnd (of_int n_cols) = 0 then Inl ZeroDivisionError
           else let tile_width_m = rnd (width / rnd (of_int n_cols))
           in if rnd (of_int n_rows) = 0 then Inl ZeroDivisionError
           else let tile_height_m = rnd (height / rnd (of_int n_rows))
           in Inr (grid_tiles rnd min_x min_y tile_width_m tile_height_m n_cols n_rows
                     row_fields geometry))"

text \<open>
  The generator, consumed to its end: the records of all rows in order, or the first
  exception.
\<close>

fun get_tiles ::
  "(real \<Rightarrow> real) \<Rightarrow> ('g shape \<Rightarrow> bbox) \<Rightarrow> (fields \<times> 'g shape) list \<Rightarrow> real \<Rightarrow> real
     \<Rightarrow> py_error + (string \<times> fields \<times> 'g shape) list" where
  "get_tiles rnd bounds_of [] max_tile_width_m max_tile_height_m = Inr []"
| "get_tiles rnd bounds_of (row # rows) max_tile_width_m max_tile_height_m =
     (case tiles_of_row rnd bounds_of max_tile_width_m max_tile_height_m row of
        Inl e \<Rightarrow> Inl e
      | Inr ts \<Rightarrow>
          (case get_tiles rnd bounds_of rows max_tile_width_m max_tile_height_m of
             Inl e \<Rightarrow> Inl e
           | Inr rest \<Rightarrow> Inr (ts @ rest)))"

section \<open>tile\_ortho.py: label conversion\<close>

text \<open>
  A line of a label file, \<^verbatim>\<open>class_id x_center y_center width height\<close>, is the
  tuple of its five values: Python prints a float with the shortest text that reads
  back as the same float, so writing and parsing a line keeps the values.
\<close>

type_synonym yolo_line = "int \<times> real \<times> real \<times> real \<times> real"

definition convert_to_yolo_format ::
  "(real \<Rightarrow> real) \<Rightarrow> bbox \<Rightarrow> bbox \<Rightarrow> int \<Rightarrow> py_error + yolo_line" where
  "convert_to_yolo_format rnd object_bbox img_bbox class_id =
     (case object_bbox of (obj_min_x, obj_min_y, obj_max_x, obj_max_y) \<Rightarrow>
      case img_bbox of (img_min_x, img_min_y, img_max_x, img_max_y) \<Rightarrow>
        let img_width = rnd (img_max_x - img_min_x);
            img_height = rnd (img_max_y - img_min_y)
        in if img_width = 0 \<or> img_height = 0 then Inl ZeroDivisionError
           else
             let obj_min_x_yolo = rnd (rnd (obj_min_x - img_min_x) / img_width);
                 obj_max_x_yolo = rnd (rnd (obj_max_x - img_min_x) / img_width);
                 obj_min_y_yolo = rnd (rnd (img_max_y - obj_max_y) / img_height);
                 obj_max_y_yolo = rnd (rnd (img_max_y - obj_min_y) / img_height);
                 x_center = rnd (rnd (obj_min_x_yolo + obj_max_x_yolo) / 2);
                 y_center = rnd (rnd (obj_min_y_yolo + obj_max_y_yolo) / 2);
                 width = rnd (obj_max_x_yolo - obj_min_x_yolo);
                 height = rnd (obj_max_y_yolo - obj_min_y_yolo)
             in Inr (class_id, x_center, y_center, width, height))"

text \<open>
  What the reconstruction builds from a line: a polygon by its vertices, or the
  16-segment unit circle around the centre scaled by the half width and half height.
\<close>

datatype detection =
    Polygon "point list"
  | ScaledCircle point real real

definition bbox_from_line :: "(real \<Rightarrow> real) \<Rightarrow> bbox \<Rightarrow> yolo_line \<Rightarrow> int \<times> detection" where
  "bbox_from_line rnd bounds parts =
     (case bounds of (b0, b1, b2, b3) \<Rightarrow>
      case parts of (class_id, p1, p2, p3, p4) \<Rightarrow>
        let width = rnd (b2 - b0);
            height = rnd (b3 - b1);
            x_center = rnd (b0 + rnd (p1 * width));
            y_center = rnd (b3 - rnd (p2 * height));
            box_width = rnd (p3 * width);
            box_height = rnd (p4 * height);
            x1 = rnd (x_center - rnd (box_width / 2));
            y1 = rnd (y_center - rnd (box_height / 2));
            x2 = rnd (x_center + rnd (box_width / 2));
            y2 = rnd (y_center + rnd (box_height / 2))
        in (class_id, Polygon [(x1, y1), (x1, y2), (x2, y2), (x2, y1)]))"

definition bboxes_from_yolo_output ::
  "(real \<Rightarrow> real) \<Rightarrow> yolo_line list \<Rightarrow> bbox \<Rightarrow> int list \<times> detection list" where
  "bboxes_from_yolo_output rnd labels_txt bounds =
     (let rows = map (bbox_from_line rnd bounds) labels_txt
      in (map fst rows, map snd rows))"

definition oval_from_line :: "(real \<Rightarrow> real) \<Rightarrow> bbox \<Rightarrow> yolo_line \<Rightarrow> int \<times> detection" where
  "oval_from_line rnd bounds parts =
     (case bounds of (b0, b1, b2, b3) \<Rightarrow>
      case parts of (class_id, p1, p2, p3, p4) \<Rightarrow>
        let width = rnd (b2 - b0);
            height = rnd (b3 - b1);
            x_center = rnd (b0 + rnd (p1 * width));
            y_center = rnd (b3 - rnd (p2 * height));
            box_width = rnd (p3 * width);
            box_height = rnd (p4 * height)
        in (class_id, ScaledCircle (x_center, y_center) (rnd (box_width / 2)) (rnd (box_height / 2))))"

definition ovals_from_yolo_output ::
  "(real \<Rightarrow> real) \<Rightarrow> yolo_line list \<Rightarrow> bbox \<Rightarrow> int list \<times> detection list" where
  "ovals_from_yolo_output rnd labels_txt bounds =
     (let rows = map (oval_from_line rnd bounds) labels_txt
      in (map fst rows, map snd rows))"


section \<open>tile\_ortho.py: raster bounds\<close>

text \<open>
  An opened \<^verbatim>\<open>easyidp.GeoTiff\<close>: the header's height, width and scale, the
  pixel-to-geographic transform and the number of bands of the raster.
\<close>

record orthophoto =
  header_height :: int
  header_width :: int
  header_scale :: "real \<times> real"
  pixel2geo :: "real \<times> real \<Rightarrow> point"
  band_count :: nat

definition geotiff_bounds :: "orthophoto \<Rightarrow> bbox" where
  "geotiff_bounds geotiff =
     (let height = header_height geotiff;
          width = header_width geotiff;
          lower_left = pixel2geo geotiff (0, of_int (height - 1));
          upper_right = pixel2geo geotiff (of_int (width - 1), 0)
      in (fst lower_left, snd lower_left, fst upper_right, snd upper_right))"

section \<open>scripts/combine\_yolo\_outputs.py\<close>

text \<open>
  The rows of the tiles shapefile carry a tile id and the inner tile.  The image
  directory maps a file name to the raster found there, the label directory to the
  lines of the label file.  \<open>centroid\<close> is shapely's centroid of a detection and
  \<open>covers g p\<close> says that the point \<open>p\<close> is kept when clipped by the geometry
  \<open>g\<close>.
\<close>

definition shape_error :: "string \<Rightarrow> py_error" where
  "shape_error shape_name =
     ValueError (''Shape should be rectangle or oval. Got '' @ shape_name @ '' instead.'')"

definition polygons_of_labels ::
  "(real \<Rightarrow> real) \<Rightarrow> string \<Rightarrow> yolo_line list \<Rightarrow> bbox \<Rightarrow> py_error + int list \<times> detection list" where
  "polygons_of_labels rnd shape_name labels_txt bounds =
     (if shape_name = ''oval'' then Inr (ovals_from_yolo_output rnd labels_txt bounds)
      else if shape_name = ''rectangle'' then Inr (bboxes_from_yolo_output rnd labels_txt bounds)
      else Inl (shape_error shape_name))"

text \<open>
  \<^verbatim>\<open>centroids = part.centroid.clip(tile_inner)\<close> and
  \<^verbatim>\<open>part.loc[centroids.index, :]\<close>: the rows whose centroid the clip keeps.
\<close>

definition clip_by_centroid ::
  "(detection \<Rightarrow> point) \<Rightarrow> ('g \<Rightarrow> point \<Rightarrow> bool) \<Rightarrow> 'g \<Rightarrow> int list \<times> detection list
     \<Rightarrow> (int \<times> detection) list" where
  "clip_by_centroid centroid covers tile_inner part =
     filter (\<lambda>row. covers tile_inner (centroid (snd row))) (zip (fst part) (snd part))"

definition geotiff_path :: "string \<Rightarrow> string \<Rightarrow> string" where
  "geotiff_path tile_images_dir tile_id = tile_images_dir @ ''/tile_'' @ tile_id @ ''.tif''"

definition labels_path :: "string \<Rightarrow> string \<Rightarrow> string" where
  "labels_path yolo_labels_dir tile_id = yolo_labels_dir @ ''/tile_'' @ tile_id @ ''.txt''"

text \<open>The loop over the tiles: the parts appended so far, or the exception.\<close>

fun polygons_gdf_parts ::
  "(real \<Rightarrow> real) \<Rightarrow> (detection \<Rightarrow> point) \<Rightarrow> ('g \<Rightarrow> point \<Rightarrow> bool)
     \<Rightarrow> (string \<rightharpoonup> yolo_line list) \<Rightarrow> string \<Rightarrow> (string \<rightharpoonup> orthophoto) \<Rightarrow> string
     \<Rightarrow> string \<Rightarrow> (string \<times> 'g) list \<Rightarrow> py_error + (int \<times> detection) list list" where
  "polygons_gdf_parts rnd centroid covers label_files yolo_labels_dir image_files tile_images_dir
     shape_name [] = Inr []"
| "polygons_gdf_parts rnd centroid covers label_files yolo_labels_dir image_files tile_images_dir
     shape_name ((tile_id, tile_inner) # tiles) =
     (case (image_files (geotiff_path tile_images_dir tile_id),
            label_files (labels_path yolo_labels_dir tile_id)) of
        (Some orthophoto, Some labels_txt) \<Rightarrow>
          (case polygons_of_labels rnd shape_name labels_txt (geotiff_bounds orthophoto) of
             Inl e \<Rightarrow> Inl e
           | Inr part \<Rightarrow>
               (case polygons_gdf_parts rnd centroid covers label_files yolo_labels_dir
                       image_files tile_images_dir shape_name tiles of
                  Inl e \<Rightarrow> Inl e
                | Inr parts \<Rightarrow> Inr (clip_by_centroid centroid covers tile_inner part # parts)))
      | _ \<Rightarrow>
          polygons_gdf_parts rnd centroid covers label_files yolo_labels_dir image_files
            tile_images_dir shape_name tiles)"

text \<open>
  \<^verbatim>\<open>pd.concat\<close> of an empty list raises; otherwise the concatenation is what
  \<^verbatim>\<open>to_file\<close> writes, and the result here.
\<close>

definition pd_concat :: "'a list list \<Rightarrow> py_error + 'a list" where
  "pd_concat parts =
     (if parts = [] then Inl (ValueError ''No objects to concatenate'') else Inr (concat parts))"

definition combine_yolo_outputs ::
  "(real \<Rightarrow> real) \<Rightarrow> (detection \<Rightarrow> point) \<Rightarrow> ('g \<Rightarrow> point \<Rightarrow> bool)
     \<Rightarrow> (string \<rightharpoonup> yolo_line list) \<Rightarrow> string \<Rightarrow> (string \<rightharpoonup> orthophoto) \<Rightarrow> string
     \<Rightarrow> (string \<times> 'g) list \<Rightarrow> string \<Rightarrow> py_error + (int \<times> detection) list" where
  "combine_yolo_outputs rnd centroid covers label_files yolo_labels_dir image_files tile_images_dir
     tiles_gdf shape_name =
     (case polygons_gdf_parts rnd centroid covers label_files yolo_labels_dir image_files
             tile_images_dir shape_name tiles_gdf of
        Inl e \<Rightarrow> Inl e
      | Inr parts \<Rightarrow> pd_concat parts)"

text \<open>
  Two notions the statements about the script use: whether both files of a tile exist,
  and the rows (class, polygon) read for a tile, none for a tile the loop skips.
\<close>

definition tile_detections ::
  "(real \<Rightarrow> real) \<Rightarrow> string \<Rightarrow> (string \<rightharpoonup> yolo_line list) \<Rightarrow> string
     \<Rightarrow> (string \<rightharpoonup> orthophoto) \<Rightarrow> string \<Rightarrow> string \<Rightarrow> (int \<times> detection) list" where
  "tile_detections rnd shape_name label_files yolo_labels_dir image_files tile_images_dir tile_id =
     (case (image_files (geotiff_path tile_images_dir tile_id),
            label_files (labels_path yolo_labels_dir tile_id)) of
        (Some orthophoto, Some labels_txt) \<Rightarrow>
          (case polygons_of_labels rnd shape_name labels_txt (geotiff_bounds orthophoto) of
             Inl e \<Rightarrow> []
           | Inr part \<Rightarrow> zip (fst part) (snd part))
      | _ \<Rightarrow> [])"

definition has_both_files ::
  "(string \<rightharpoonup> yolo_line list) \<Rightarrow> string \<Rightarrow> (string \<rightharpoonup> orthophoto) \<Rightarrow> string \<Rightarrow> string \<Rightarrow> bool" where
  "has_both_files label_files yolo_labels_dir image_files tile_images_dir tile_id \<longleftrightarrow>
     image_files (geotiff_path tile_images_dir tile_id) \<noteq> None
   \<and> label_files (labels_path yolo_labels_dir tile_id) \<noteq> None"

section \<open>The tiling scripts\<close>

text \<open>
  Both scripts build the tiles the same way and then write: what they do to the disk is
  logged as a list of effects, in order, next to the exception that ended the run, if
  one did.  The areas are the table the script passes to \<^verbatim>\<open>get_tiles\<close>: read
  with the raster's bounds as filter, clipped to them and reprojected by geopandas.
\<close>

datatype effect =
    ReplaceDir string
  | MkDir string
  | WriteYaml string
  | CropPolygon string
  | ReplaceAlpha string
  | AppendLine string yolo_line
  | WriteShapefile string

type_synonym run = "effect list \<times> py_error option"

type_synonym 'g tile = "string \<times> fields \<times> 'g shape \<times> 'g shape"

text \<open>\<^verbatim>\<open>tiles["inner_tile"].buffer(distance=buffer_m, join_style=2).clip(bounds)\<close>\<close>

definition outer_tile :: "'g shape \<Rightarrow> real \<Rightarrow> bbox \<Rightarrow> 'g shape" where
  "outer_tile inner_tile buffer_m bounds = ClipRect (Buffer inner_tile buffer_m) bounds"

definition with_outer_tiles ::
  "(string \<times> fields \<times> 'g shape) list \<Rightarrow> real \<Rightarrow> bbox \<Rightarrow> 'g tile list" where
  "with_outer_tiles tiles buffer_m bounds =
     map (\<lambda>(tile_id, row_fields, inner_tile).
            (tile_id, row_fields, inner_tile, outer_tile inner_tile buffer_m bounds)) tiles"

text \<open>\<^verbatim>\<open>tiles["split"]\<close>: the column, or a \<^verbatim>\<open>KeyError\<close>.\<close>

fun split_column :: "'g tile list \<Rightarrow> py_error + string list" where
  "split_column [] = Inr []"
| "split_column ((tile_id, row_fields, inner_tile, outer) # tiles) =
     (case map_of row_fields ''split'' of
        None \<Rightarrow> Inl (KeyError ''split'')
      | Some v \<Rightarrow>
          (case split_column tiles of Inl e \<Rightarrow> Inl e | Inr vs \<Rightarrow> Inr (v # vs)))"

definition image_path :: "string \<Rightarrow> string \<Rightarrow> string \<Rightarrow> string" where
  "image_path outdir split tile_id = outdir @ ''/images/'' @ split @ ''/tile_'' @ tile_id @ ''.tif''"

text \<open>
  Cropping a tile and normalising its alpha channel; the crop has the bands of the
  orthophoto, and \<^verbatim>\<open>replace_geotiff_alpha\<close> raises on a count other than 3 or 4.
\<close>

definition crop_tile :: "orthophoto \<Rightarrow> string \<Rightarrow> run" where
  "crop_tile orthophoto save_path =
     (if band_count orthophoto = 4 \<or> band_count orthophoto = 3
      then ([CropPolygon save_path, ReplaceAlpha save_path], None)
      else ([CropPolygon save_path], Some (unsupported_band_count (band_count orthophoto))))"

text \<open>Running one step after another: an exception ends the run.\<close>

definition and_then :: "run \<Rightarrow> run \<Rightarrow> run" where
  "and_then first second =
     (case first of
        (log1, Some e) \<Rightarrow> (log1, Some e)
      | (log1, None) \<Rightarrow> (case second of (log2, r) \<Rightarrow> (log1 @ log2, r)))"

fun for_each :: "('a \<Rightarrow> run) \<Rightarrow> 'a list \<Rightarrow> run" where
  "for_each body [] = ([], None)"
| "for_each body (x # xs) = and_then (body x) (for_each body xs)"

subsection \<open>scripts/tile\_orthophoto.py\<close>

definition save_cropped_image :: "orthophoto \<Rightarrow> string \<Rightarrow> 'g tile \<Rightarrow> run" where
  "save_cropped_image orthophoto outdir row =
     (case row of (tile_id, row_fields, inner_tile, outer) \<Rightarrow>
      case map_of row_fields ''split'' of
        None \<Rightarrow> ([], Some (KeyError ''split''))
      | Some split \<Rightarrow> crop_tile orthophoto (image_path outdir split tile_id))"

definition tile_orthophoto_write :: "orthophoto \<Rightarrow> string \<Rightarrow> 'g tile list \<Rightarrow> run" where
  "tile_orthophoto_write orthophoto outdir tiles =
     and_then ([ReplaceDir outdir, MkDir (outdir @ ''/tiles'')], None)
       (case split_column tiles of
          Inl e \<Rightarrow> ([], Some e)
        | Inr splits \<Rightarrow>
            and_then (map (\<lambda>split. MkDir (outdir @ ''/images/'' @ split)) (rev (remdups (rev splits))), None)
              (and_then (for_each (save_cropped_image orthophoto outdir) tiles)
                 ([WriteShapefile (outdir @ ''/tiles/tiles_inner.shp''),
                   WriteShapefile (outdir @ ''/tiles/tiles_outer.shp'')], None)))"

definition buffer_assertion :: py_error where
  "buffer_assertion = AssertionError ''Maximum tile size smaller than twice the buffer size.''"

text \<open>
  The pixel counts are integers, converted to floats where they are multiplied by the
  scale; \<^verbatim>\<open>2 * buffer_m\<close> is a float product.
\<close>

definition tile_orthophoto_tiles ::
  "(real \<Rightarrow> real) \<Rightarrow> ('g shape \<Rightarrow> bbox) \<Rightarrow> orthophoto \<Rightarrow> (fields \<times> 'g shape) list \<Rightarrow> int \<Rightarrow> real
     \<Rightarrow> py_error + 'g tile list" where
  "tile_orthophoto_tiles rnd bounds_of orthophoto areas max_tile_size_px buffer_m =
     (let max_outer_tile_width_px = max_tile_size_px;
          max_outer_tile_height_px = max_tile_size_px;
          bounds = geotiff_bounds orthophoto;
          scale_x = fst (header_scale orthophoto);
          scale_y = snd (header_scale orthophoto);
          max_outer_tile_width_m = rnd (scale_x * rnd (of_int max_outer_tile_width_px))
      in if \<not> (max_outer_tile_width_m > rnd (2 * buffer_m)) then Inl buffer_assertion
         else
           let max_inner_tile_width_m = rnd (max_outer_tile_width_m - rnd (2 * buffer_m));
               max_outer_tile_height_m = rnd (scale_y * rnd (of_int max_outer_tile_height_px))
           in if \<not> (max_outer_tile_height_m > rnd (2 * buffer_m)) then Inl buffer_assertion
              else
                let max_inner_tile_height_m = rnd (max_outer_tile_height_m - rnd (2 * buffer_m))
                in (case get_tiles rnd bounds_of areas max_inner_tile_width_m max_inner_tile_height_m of
                      Inl e \<Rightarrow> Inl e
                    | Inr tiles \<Rightarrow> Inr (with_outer_tiles tiles buffer_m bounds)))"

definition tile_orthophoto_main ::
  "(real \<Rightarrow> real) \<Rightarrow> ('g shape \<Rightarrow> bbox) \<Rightarrow> orthophoto \<Rightarrow> (fields \<times> 'g shape) list \<Rightarrow> int \<Rightarrow> real
     \<Rightarrow> string \<Rightarrow> run" where
  "tile_orthophoto_main rnd bounds_of orthophoto areas max_tile_size_px buffer_m outdir =
     (case tile_orthophoto_tiles rnd bounds_of orthophoto areas max_tile_size_px buffer_m of
        Inl e \<Rightarrow> ([], Some e)
      | Inr tiles \<Rightarrow> tile_orthophoto_write orthophoto outdir tiles)"

subsection \<open>scripts/prepare\_yolo\_dataset.py\<close>

text \<open>
  \<open>clip_refs tile\<close> is \<^verbatim>\<open>bboxes_ref.clip(tile)\<close>: the bounds and the class of
  every reference box the clip by the outer tile keeps.
\<close>

definition label_file_path :: "string \<Rightarrow> string \<Rightarrow> string \<Rightarrow> string" where
  "label_file_path outdir split tile_id = outdir @ ''/labels/'' @ split @ ''/tile_'' @ tile_id @ ''.txt''"

definition write_label ::
  "(real \<Rightarrow> real) \<Rightarrow> string \<Rightarrow> bbox \<Rightarrow> bbox \<times> int \<Rightarrow> run" where
  "write_label rnd path tile_bounds tree =
     (case convert_to_yolo_format rnd (fst tree) tile_bounds (snd tree) of
        Inl e \<Rightarrow> ([], Some e)
      | Inr yolo_format \<Rightarrow> ([AppendLine path yolo_format], None))"

definition save_tile_dataset ::
  "(real \<Rightarrow> real) \<Rightarrow> ('g shape \<Rightarrow> bbox) \<Rightarrow> ('g shape \<Rightarrow> (bbox \<times> int) list) \<Rightarrow> orthophoto
     \<Rightarrow> string \<Rightarrow> 'g tile \<Rightarrow> run" where
  "save_tile_dataset rnd bounds_of clip_refs orthophoto outdir row =
     (case row of (tile_id, row_fields, inner_tile, outer) \<Rightarrow>
      case map_of row_fields ''split'' of
        None \<Rightarrow> ([], Some (KeyError ''split''))
      | Some split \<Rightarrow>
          and_then (crop_tile orthophoto (image_path outdir split tile_id))
            (for_each (write_label rnd (label_file_path outdir split tile_id) (bounds_of outer))
               (clip_refs outer)))"

definition prepare_yolo_dataset_write ::
  "(real \<Rightarrow> real) \<Rightarrow> ('g shape \<Rightarrow> bbox) \<Rightarrow> ('g shape \<Rightarrow> (bbox \<times> int) list) \<Rightarrow> orthophoto
     \<Rightarrow> string \<Rightarrow> 'g tile list \<Rightarrow> run" where
  "prepare_yolo_dataset_write rnd bounds_of clip_refs orthophoto outdir tiles_gdf =
     and_then ([ReplaceDir outdir], None)
       (case split_column tiles_gdf of
          Inl e \<Rightarrow> ([], Some e)
        | Inr splits \<Rightarrow>
            and_then
              (concat (map (\<lambda>split. [MkDir (outdir @ ''/images/'' @ split),
                                       MkDir (outdir @ ''/labels/'' @ split)]) (rev (remdups (rev splits)))),
               None)
              (and_then ([WriteYaml (outdir @ ''/data.yaml'')], None)
                 (for_each (save_tile_dataset rnd bounds_of clip_refs orthophoto outdir) tiles_gdf)))"

definition prepare_yolo_dataset_tiles ::
  "(real \<Rightarrow> real) \<Rightarrow> ('g shape \<Rightarrow> bbox) \<Rightarrow> orthophoto \<Rightarrow> (fields \<times> 'g shape) list \<Rightarrow> int \<Rightarrow> int
     \<Rightarrow> real \<Rightarrow> py_error + 'g tile list" where
  "prepare_yolo_dataset_tiles rnd bounds_of orthophoto split_areas max_outer_tile_width_px
     max_outer_tile_height_px buffer_m =
     (let bounds = geotiff_bounds orthophoto;
          scale_x = fst (header_scale orthophoto);
          scale_y = snd (header_scale orthophoto);
          max_inner_tile_width_m =
            rnd (rnd (scale_x * rnd (of_int max_outer_tile_width_px)) - rnd (2 * buffer_m));
          max_inner_tile_height_m =
            rnd (rnd (scale_y * rnd (of_int max_outer_tile_height_px)) - rnd (2 * buffer_m))
      in (case get_tiles rnd bounds_of split_areas max_inner_tile_width_m max_inner_tile_height_m of
            Inl e \<Rightarrow> Inl e
          | Inr tiles \<Rightarrow> Inr (with_outer_tiles tiles buffer_m bounds)))"

definition prepare_yolo_dataset_main ::
  "(real \<Rightarrow> real) \<Rightarrow> ('g shape \<Rightarrow> bbox) \<Rightarrow> ('g shape \<Rightarrow> (bbox \<times> int) list) \<Rightarrow> orthophoto
     \<Rightarrow> (fields \<times> 'g shape) list \<Rightarrow> int \<Rightarrow> int \<Rightarrow> real \<Rightarrow> string \<Rightarrow> run" where
  "prepare_yolo_dataset_main rnd bounds_of clip_refs orthophoto split_areas max_outer_tile_width_px
     max_outer_tile_height_px buffer_m outdir =
     (case prepare_yolo_dataset_tiles rnd bounds_of orthophoto split_areas max_outer_tile_width_px
             max_outer_tile_height_px buffer_m of
        Inl e \<Rightarrow> ([], Some e)
      | Inr tiles_gdf \<Rightarrow>
          prepare_yolo_dataset_write rnd bounds_of clip_refs orthophoto outdir tiles_gdf)"

section \<open>Alpha normalisation\<close>

lemma assign_masked_nth:
  assumes "has_shape h w r" "has_shape h w a" "y < h" "x < w"
  shows "assign_masked r (alpha_mask a) v ! y ! x = (if a ! y ! x = 0 then v else r ! y ! x)"
  using assms
  by (simp add: assign_masked_def alpha_mask_def has_shape_def list_all_length)

lemma assign_masked_shape:
  assumes "has_shape h w r" "has_shape h w a"
  shows "has_shape h w (assign_masked r (alpha_mask a) v)"
  using assms
  by (auto simp add: assign_masked_def alpha_mask_def has_shape_def list_all_length)

lemma rgb_of_bands_4:
  "rgb_of_bands [r, g, b, a] =
     Inr [assign_masked r (alpha_mask a) 255, assign_masked g (alpha_mask a) 255,
          assign_masked b (alpha_mask a) 255]"
  by (simp add: rgb_of_bands_def Let_def)

lemma rgb_of_bands_3: "rgb_of_bands [r, g, b] = Inr [r, g, b]"
  by (simp add: rgb_of_bands_def)

lemma rgb_of_bands_other:
  "length bs \<noteq> 4 \<Longrightarrow> length bs \<noteq> 3 \<Longrightarrow>
   rgb_of_bands bs = Inl (unsupported_band_count (length bs))"
  by (auto simp add: rgb_of_bands_def split: list.splits)

text \<open>
  C8.  Reading a file of four bands of one shape, \<^verbatim>\<open>replace_geotiff_alpha\<close> writes
  three bands of that shape: a pixel whose alpha value is 0 has red, green and blue 255,
  every other pixel keeps its red, green and blue.  A file of three bands is written
  with the same three bands.  Any other number of bands raises the
  \<^verbatim>\<open>ValueError\<close> "Unsupported band count".
\<close>

theorem replace_geotiff_alpha_normalises:
  assumes "fs input_path = Some src"
  shows "(bands src = [r, g, b, a] \<and> has_shape h w r \<and> has_shape h w g \<and> has_shape h w b
            \<and> has_shape h w a \<longrightarrow>
          (\<exists>r' g' b'.
             replace_geotiff_alpha fs input_path output_path
               = Inr (fs(output_path \<mapsto> src\<lparr>bands := [r', g', b']\<rparr>))
           \<and> has_shape h w r' \<and> has_shape h w g' \<and> has_shape h w b'
           \<and> (\<forall>y < h. \<forall>x < w.
                  r' ! y ! x = (if a ! y ! x = 0 then 255 else r ! y ! x)
                \<and> g' ! y ! x = (if a ! y ! x = 0 then 255 else g ! y ! x)
                \<and> b' ! y ! x = (if a ! y ! x = 0 then 255 else b ! y ! x))))
       \<and> (bands src = [r, g, b] \<longrightarrow>
            replace_geotiff_alpha fs input_path output_path
              = Inr (fs(output_path \<mapsto> src\<lparr>bands := [r, g, b]\<rparr>)))
       \<and> (length (bands src) \<noteq> 4 \<and> length (bands src) \<noteq> 3 \<longrightarrow>
            replace_geotiff_alpha fs input_path output_path
              = Inl (unsupported_band_count (length (bands src))))"
proof (intro conjI impI)
  assume h: "bands src = [r, g, b, a] \<and> has_shape h w r \<and> has_shape h w g \<and> has_shape h w b
            \<and> has_shape h w a"
  let ?m = "alpha_mask a"
  have "replace_geotiff_alpha fs input_path output_path
      = Inr (fs(output_path \<mapsto> src\<lparr>bands := [assign_masked r ?m 255, assign_masked g ?m 255,
            assign_masked b ?m 255]\<rparr>))"
    using assms h by (simp add: replace_geotiff_alpha_def rgb_of_bands_4)
  moreover have "has_shape h w (assign_masked r ?m 255)" "has_shape h w (assign_masked g ?m 255)"
     "has_shape h w (assign_masked b ?m 255)"
    using h by (simp_all add: assign_masked_shape)
  moreover have "\<forall>y < h. \<forall>x < w.
                  assign_masked r ?m 255 ! y ! x = (if a ! y ! x = 0 then 255 else r ! y ! x)
                \<and> assign_masked g ?m 255 ! y ! x = (if a ! y ! x = 0 then 255 else g ! y ! x)
                \<and> assign_masked b ?m 255 ! y ! x = (if a ! y ! x = 0 then 255 else b ! y ! x)"
  proof (intro allI impI)
    fix y x assume "y < h" "x < w"
    then show "assign_masked r ?m 255 ! y ! x = (if a ! y ! x = 0 then 255 else r ! y ! x)
                \<and> assign_masked g ?m 255 ! y ! x = (if a ! y ! x = 0 then 255 else g ! y ! x)
                \<and> assign_masked b ?m 255 ! y ! x = (if a ! y ! x = 0 then 255 else b ! y ! x)"
      using h assign_masked_nth [of h w r a y x 255] assign_masked_nth [of h w g a y x 255]
        assign_masked_nth [of h w b a y x 255] by simp
  qed
  ultimately show "\<exists>r' g' b'.
             replace_geotiff_alpha fs input_path output_path
               = Inr (fs(output_path \<mapsto> src\<lparr>bands := [r', g', b']\<rparr>))
           \<and> has_shape h w r' \<and> has_shape h w g' \<and> has_shape h w b'
           \<and> (\<forall>y < h. \<forall>x < w.
                  r' ! y ! x = (if a ! y ! x = 0 then 255 else r ! y ! x)
                \<and> g' ! y ! x = (if a ! y ! x = 0 then 255 else g ! y ! x)
                \<and> b' ! y ! x = (if a ! y ! x = 0 then 255 else b ! y ! x))"
    by blast
next
  assume "bands src = [r, g, b]"
  then show "replace_geotiff_alpha fs input_path output_path
              = Inr (fs(output_path \<mapsto> src\<lparr>bands := [r, g, b]\<rparr>))"
    using assms by (simp add: replace_geotiff_alpha_def rgb_of_bands_3)
next
  assume "length (bands src) \<noteq> 4 \<and> length (bands src) \<noteq> 3"
  then show "replace_geotiff_alpha fs input_path output_path
              = Inl (unsupported_band_count (length (bands src)))"
    using assms by (simp add: replace_geotiff_alpha_def rgb_of_bands_other)
qed

theorem replace_geotiff_alpha_normalises_witness:
  "(\<exists>r' g' b'.
      replace_geotiff_alpha [''t.tif'' \<mapsto> \<lparr>profile = (), bands = [[[10, 20]], [[30, 40]], [[50, 60]], [[0, 7::nat]]]\<rparr>]
         ''t.tif'' ''t.tif''
       = Inr [''t.tif'' \<mapsto> \<lparr>profile = (), bands = [r', g', b']\<rparr>]
      \<and> r' ! 0 ! 0 = 255 \<and> g' ! 0 ! 0 = 255 \<and> b' ! 0 ! 0 = 255
      \<and> r' ! 0 ! 1 = 20 \<and> g' ! 0 ! 1 = 40 \<and> b' ! 0 ! 1 = 60)
   \<and> replace_geotiff_alpha [''t.tif'' \<mapsto> \<lparr>profile = (), bands = [[[10, 20]], [[30, 40]], [[50, 60::nat]]]\<rparr>]
         ''t.tif'' ''t.tif''
       = Inr [''t.tif'' \<mapsto> \<lparr>profile = (), bands = [[[10, 20]], [[30, 40]], [[50, 60]]]\<rparr>]
   \<and> replace_geotiff_alpha [''t.tif'' \<mapsto> \<lparr>profile = (), bands = [[[10, 20::nat]]]\<rparr>]
         ''t.tif'' ''t.tif''
       = Inl (ValueError ''Unsupported band count: 1'')"
proof -
  let ?s4 = "\<lparr>profile = (), bands = [[[10, 20]], [[30, 40]], [[50, 60]], [[0, 7::nat]]]\<rparr>"
  let ?s3 = "\<lparr>profile = (), bands = [[[10, 20]], [[30, 40]], [[50, 60::nat]]]\<rparr>"
  let ?s1 = "\<lparr>profile = (), bands = [[[10, 20::nat]]]\<rparr>"
  have a: "\<exists>r' g' b'.
      replace_geotiff_alpha [''t.tif'' \<mapsto> ?s4] ''t.tif'' ''t.tif''
       = Inr [''t.tif'' \<mapsto> \<lparr>profile = (), bands = [r', g', b']\<rparr>]
      \<and> r' ! 0 ! 0 = 255 \<and> g' ! 0 ! 0 = 255 \<and> b' ! 0 ! 0 = 255
      \<and> r' ! 0 ! 1 = 20 \<and> g' ! 0 ! 1 = 40 \<and> b' ! 0 ! 1 = 60"
    using replace_geotiff_alpha_normalises
      [of "[''t.tif'' \<mapsto> ?s4]" "''t.tif''" ?s4 "[[10, 20]]" "[[30, 40]]" "[[50, 60]]" "[[0, 7]]"
          1 2 "''t.tif''"]
    apply (simp add: has_shape_def)
    apply (elim exE conjE)
    subgoal for r' g' b'
      apply (rule exI [of _ r'], rule exI [of _ g'], rule exI [of _ b'])
      apply (simp add: numeral_2_eq_2 less_Suc_eq all_conj_distrib)
      done
    done
  have b: "replace_geotiff_alpha [''t.tif'' \<mapsto> ?s3] ''t.tif'' ''t.tif''
       = Inr [''t.tif'' \<mapsto> ?s3]"
    using replace_geotiff_alpha_normalises
      [of "[''t.tif'' \<mapsto> ?s3]" "''t.tif''" ?s3 "[[10, 20]]" "[[30, 40]]" "[[50, 60]]" _ _ _ "''t.tif''"]
    by simp
  have c: "replace_geotiff_alpha [''t.tif'' \<mapsto> ?s1] ''t.tif'' ''t.tif''
       = Inl (ValueError ''Unsupported band count: 1'')"
    using replace_geotiff_alpha_normalises
      [of "[''t.tif'' \<mapsto> ?s1]" "''t.tif''" ?s1 _ _ _ _ _ _ "''t.tif''"]
    by (simp add: unsupported_band_count_def str_nat.simps digit_char_def)
  show ?thesis using a b c by blast
qed

section \<open>Rounding to a double\<close>

lemma pow2_pos: "0 < pow2 e"
  by (simp add: pow2_def)

lemma pow2_add: "pow2 (a + b) = pow2 a * pow2 b"
proof -
  have "pow2 e = 2 powi e" for e
    by (simp add: pow2_def power_int_def power_one_over inverse_eq_divide)
  then show ?thesis by (simp add: power_int_add)
qed

lemma pow2_Suc: "pow2 (e + 1) = 2 * pow2 e"
  using pow2_add [of e 1] by (simp add: pow2_def)

lemma bitlen_unique:
  assumes "2 ^ k \<le> n" "n < 2 ^ Suc k"
  shows "bitlen n = int k + 1"
proof -
  have pos: "0 < n" using assms(1) by (smt (verit) zero_less_power)
  from bitlen_bounds [OF pos]
  have lo: "2 ^ nat (bitlen n - 1) \<le> n" and hi: "n < 2 ^ nat (bitlen n)" by simp_all
  have "(2::int) ^ nat (bitlen n - 1) < 2 ^ Suc k" using lo assms(2) by linarith
  then have a: "nat (bitlen n - 1) < Suc k" by (rule power_less_imp_less_exp [rotated]) simp
  have "(2::int) ^ k < 2 ^ nat (bitlen n)" using hi assms(1) by linarith
  then have b: "k < nat (bitlen n)" by (rule power_less_imp_less_exp [rotated]) simp
  show ?thesis using a b by linarith
qed

lemma binexp_unique:
  assumes lo: "pow2 e \<le> \<bar>x\<bar>" and hi: "\<bar>x\<bar> < pow2 (e + 1)"
  shows "binexp x = e"
proof (cases "1 \<le> \<bar>x\<bar>")
  case True
  have e0: "0 \<le> e"
  proof (rule ccontr)
    assume "\<not> 0 \<le> e"
    then have "e + 1 \<le> 0" by simp
    then have "pow2 (e + 1) \<le> 1"
      by (auto simp add: pow2_def divide_le_eq_1 intro: one_le_power)
    with hi True show False by linarith
  qed
  define k where "k = nat e"
  have pe: "pow2 e = 2 ^ k" and pe1: "pow2 (e + 1) = 2 ^ Suc k"
    using e0 by (simp_all add: pow2_def k_def nat_add_distrib)
  have "real_of_int (2 ^ k) \<le> \<bar>x\<bar>" using lo pe by simp
  then have a: "2 ^ k \<le> \<lfloor>\<bar>x\<bar>\<rfloor>" by (simp add: le_floor_iff)
  have "\<bar>x\<bar> < real_of_int (2 ^ Suc k)" using hi pe1 by simp
  then have b: "\<lfloor>\<bar>x\<bar>\<rfloor> < 2 ^ Suc k" by (simp add: floor_less_iff)
  have "bitlen \<lfloor>\<bar>x\<bar>\<rfloor> = int k + 1" by (rule bitlen_unique [OF a b])
  then show ?thesis using True e0 by (simp add: binexp_def k_def)
next
  case False
  then have x1: "\<bar>x\<bar> < 1" by simp
  have xpos: "0 < \<bar>x\<bar>" using lo pow2_pos [of e] by linarith
  have e0: "e < 0"
  proof (rule ccontr)
    assume "\<not> e < 0"
    then have "1 \<le> pow2 e" by (simp add: pow2_def)
    with lo x1 show False by linarith
  qed
  define k where "k = nat (- e - 1)"
  have pe: "pow2 e = 1 / 2 ^ Suc k" using e0 by (simp add: pow2_def k_def nat_diff_distrib)
  have pe1: "pow2 (e + 1) = 1 / 2 ^ k" using e0 by (auto simp add: pow2_def k_def)
  define y where "y = 1 / \<bar>x\<bar>"
  have y_hi: "y \<le> 2 ^ Suc k"
    using lo xpos unfolding pe y_def by (simp add: field_simps)
  have y_lo: "2 ^ k < y"
    using hi xpos unfolding pe1 y_def by (simp add: field_simps)
  have "y \<le> real_of_int (2 ^ Suc k)" using y_hi by simp
  then have a: "\<lceil>y\<rceil> \<le> 2 ^ Suc k" by (simp add: ceiling_le_iff)
  have "real_of_int (2 ^ k) < y" using y_lo by simp
  then have b: "2 ^ k < \<lceil>y\<rceil>" by (simp add: less_ceiling_iff)
  have "bitlen (\<lceil>y\<rceil> - 1) = int k + 1"
    by (rule bitlen_unique) (use a b in simp_all)
  then show ?thesis using False e0 by (simp add: binexp_def y_def k_def)
qed

lemma binary64_eval:
  assumes "pow2 e \<le> \<bar>x\<bar>" "\<bar>x\<bar> < pow2 (e + 1)" "- 1022 \<le> e"
    and "round_half_even (x / pow2 (e - 52)) = m"
    and "of_int m * pow2 (e - 52) = v"
  shows "binary64 x = v"
proof -
  have "x \<noteq> 0" using assms(1) pow2_pos [of e] by auto
  moreover have "max (e - 52) (- 1074) = e - 52" using assms(3) by simp
  ultimately show ?thesis
    using assms(4,5) by (simp add: binary64_def binexp_unique [OF assms(1,2)] Let_def)
qed

text \<open>
  What the rounding of a double does: it is the identity on the dyadic numbers with a
  significand of at most 53 bits, so on the whole numbers below \<open>2 ^ 53\<close>; it is
  monotone and odd; and its error is at most \<open>\<bar>x\<bar> / 2 ^ 53\<close>, or half the spacing
  \<open>2 ^ - 1074\<close> of the subnormal numbers.
\<close>

lemma pow2_powr: "pow2 e = 2 powr (of_int e)"
  by (simp add: pow2_def powr_int)

lemma pow2_mono: "a \<le> b \<Longrightarrow> pow2 a \<le> pow2 b"
  by (simp add: pow2_powr)

lemma pow2_less_cancel: "pow2 a < pow2 b \<Longrightarrow> a < b"
  by (simp add: pow2_powr)

lemma pow2_nat: "0 \<le> e \<Longrightarrow> pow2 e = of_int (2 ^ nat e)"
  by (simp add: pow2_def)

lemma pow2_neg_le_half: "e < 0 \<Longrightarrow> pow2 e \<le> 1 / 2"
proof -
  assume "e < 0"
  then have "pow2 e \<le> pow2 (- 1)" by (intro pow2_mono) simp
  then show ?thesis by (simp add: pow2_def)
qed

lemma binexp_bounds:
  assumes "x \<noteq> 0"
  shows "pow2 (binexp x) \<le> \<bar>x\<bar>" "\<bar>x\<bar> < pow2 (binexp x + 1)"
proof -
  define e where "e = \<lfloor>log 2 \<bar>x\<bar>\<rfloor>"
  have pos: "0 < \<bar>x\<bar>" using assms by simp
  have "2 powr (of_int e) \<le> \<bar>x\<bar> \<and> \<bar>x\<bar> < 2 powr (of_int (e + 1))"
    using floor_log_eq_powr_iff [of "\<bar>x\<bar>" 2 e] pos by (simp add: e_def)
  then have b: "pow2 e \<le> \<bar>x\<bar>" "\<bar>x\<bar> < pow2 (e + 1)"
    by (simp_all add: pow2_powr)
  have "binexp x = e" by (rule binexp_unique [OF b])
  then show "pow2 (binexp x) \<le> \<bar>x\<bar>" "\<bar>x\<bar> < pow2 (binexp x + 1)"
    using b by simp_all
qed

lemma binexp_minus: "binexp (- x) = binexp x"
  by (simp add: binexp_def)


lemma round_half_even_nonneg: "0 \<le> y \<Longrightarrow> 0 \<le> round_half_even y"
  by (auto simp add: round_half_even_def Let_def)

lemma round_half_even_of_int: "round_half_even (of_int n) = n"
  by (simp add: round_half_even_def)

lemma round_half_even_bounds:
  "\<lfloor>y\<rfloor> \<le> round_half_even y" "round_half_even y \<le> \<lfloor>y\<rfloor> + 1"
  by (simp_all add: round_half_even_def Let_def)

lemma round_half_even_mono:
  assumes "x \<le> y"
  shows "round_half_even x \<le> round_half_even y"
proof (cases "\<lfloor>x\<rfloor> = \<lfloor>y\<rfloor>")
  case True
  then show ?thesis using assms by (auto simp add: round_half_even_def Let_def)
next
  case False
  have "\<lfloor>x\<rfloor> \<le> \<lfloor>y\<rfloor>" using assms by (rule floor_mono)
  then have "\<lfloor>x\<rfloor> + 1 \<le> \<lfloor>y\<rfloor>" using False by simp
  then show ?thesis
    using round_half_even_bounds(2) [of x] round_half_even_bounds(1) [of y] by linarith
qed

lemma round_half_even_minus: "round_half_even (- y) = - round_half_even y"
proof (cases "of_int \<lfloor>y\<rfloor> = y")
  case True
  then obtain n where "y = of_int n" by metis
  then show ?thesis
    using round_half_even_of_int [of n] round_half_even_of_int [of "- n"] by simp
next
  case False
  define f where "f = \<lfloor>y\<rfloor>"
  have lt: "of_int f < y" and up: "y < of_int f + 1" using False unfolding f_def by linarith+
  have fl: "\<lfloor>- y\<rfloor> = - f - 1"
  proof (rule floor_unique)
    show "of_int (- f - 1) \<le> - y" using up by simp
    show "- y < of_int (- f - 1) + 1" using lt by simp
  qed
  have "round_half_even (- y) =
      (if - y - of_int (- f - 1) < 1 / 2 then - f - 1
       else if 1 / 2 < - y - of_int (- f - 1) then - f
       else if even (- f - 1) then - f - 1 else - f)"
    unfolding round_half_even_def Let_def fl by simp
  moreover have "round_half_even y =
      (if y - of_int f < 1 / 2 then f else if 1 / 2 < y - of_int f then f + 1
       else if even f then f else f + 1)"
    unfolding round_half_even_def Let_def f_def by simp
  ultimately show ?thesis using lt up by (auto simp add: algebra_simps)
qed

lemma round_half_even_le_pow2:
  assumes "0 \<le> t" "t \<le> pow2 m"
  shows "of_int (round_half_even t) \<le> pow2 m"
proof (cases "0 \<le> m")
  case True
  have "round_half_even t \<le> round_half_even (of_int (2 ^ nat m))"
    using assms(2) True by (intro round_half_even_mono) (simp add: pow2_nat)
  then have "round_half_even t \<le> 2 ^ nat m" by (simp only: round_half_even_of_int)
  then have "real_of_int (round_half_even t) \<le> of_int (2 ^ nat m)" by (simp only: of_int_le_iff)
  then show ?thesis using True by (simp only: pow2_nat)
next
  case False
  then have "pow2 m \<le> 1 / 2" by (intro pow2_neg_le_half) simp
  then have "t \<le> 1 / 2" using assms(2) by linarith
  then have "\<lfloor>t\<rfloor> = 0" using assms(1) by (intro floor_unique) simp_all
  then have "round_half_even t = 0"
    using \<open>t \<le> 1 / 2\<close> by (simp add: round_half_even_def Let_def)
  then show ?thesis using pow2_pos [of m] by simp
qed

lemma round_half_even_ge_pow2:
  assumes "0 \<le> m" "pow2 m \<le> t"
  shows "pow2 m \<le> of_int (round_half_even t)"
proof -
  have "round_half_even (of_int (2 ^ nat m)) \<le> round_half_even t"
    using assms by (intro round_half_even_mono) (simp add: pow2_nat)
  then have "2 ^ nat m \<le> round_half_even t" by (simp only: round_half_even_of_int)
  then have "real_of_int (2 ^ nat m) \<le> of_int (round_half_even t)" by (simp only: of_int_le_iff)
  then show ?thesis using assms(1) by (simp only: pow2_nat)
qed

lemma binary64_zero: "binary64 0 = 0"
  by (simp add: binary64_def)

lemma binary64_minus: "binary64 (- x) = - binary64 x"
  by (simp add: binary64_def binexp_minus round_half_even_minus Let_def)

lemma binary64_nonneg: "0 \<le> x \<Longrightarrow> 0 \<le> binary64 x"
  by (auto simp add: binary64_def Let_def pow2_pos less_imp_le intro!: mult_nonneg_nonneg round_half_even_nonneg)

lemma binary64_mono_pos:
  assumes "0 < x" "x \<le> y"
  shows "binary64 x \<le> binary64 y"
proof -
  define ex ey where "ex = binexp x" and "ey = binexp y"
  define kx ky where "kx = max (ex - 52) (- 1074)" and "ky = max (ey - 52) (- 1074)"
  have x0: "x \<noteq> 0" and y0: "y \<noteq> 0" and ypos: "0 < y" using assms by simp_all
  have bx: "binary64 x = of_int (round_half_even (x / pow2 kx)) * pow2 kx"
    using x0 by (simp add: binary64_def Let_def kx_def ex_def)
  have by': "binary64 y = of_int (round_half_even (y / pow2 ky)) * pow2 ky"
    using y0 by (simp add: binary64_def Let_def ky_def ey_def)
  have xb: "pow2 ex \<le> x" "x < pow2 (ex + 1)"
    using binexp_bounds [OF x0] assms(1) by (simp_all add: ex_def)
  have yb: "pow2 ey \<le> y" "y < pow2 (ey + 1)"
    using binexp_bounds [OF y0] ypos by (simp_all add: ey_def)
  have "pow2 ex < pow2 (ey + 1)" using xb(1) assms(2) yb(2) by linarith
  then have exy: "ex \<le> ey" using pow2_less_cancel by fastforce
  show ?thesis
  proof (cases "kx = ky")
    case True
    have "x / pow2 ky \<le> y / pow2 ky"
      using assms(2) pow2_pos [of ky] by (simp add: divide_right_mono)
    then have "round_half_even (x / pow2 ky) \<le> round_half_even (y / pow2 ky)"
      by (rule round_half_even_mono)
    then have "real_of_int (round_half_even (x / pow2 ky)) * pow2 ky
        \<le> of_int (round_half_even (y / pow2 ky)) * pow2 ky"
      using pow2_pos [of ky] by (intro mult_right_mono) simp_all
    then show ?thesis unfolding bx by' True .
  next
    case False
    then have lt: "ex < ey" and ky: "ky = ey - 52" using exy by (auto simp add: kx_def ky_def)
    have "pow2 52 \<le> y / pow2 ky"
    proof -
      have "pow2 ey = pow2 52 * pow2 ky" unfolding ky using pow2_add [of 52 "ey - 52"] by simp
      then show ?thesis using yb(1) pow2_pos [of ky] by (simp add: pos_le_divide_eq)
    qed
    then have "pow2 52 \<le> of_int (round_half_even (y / pow2 ky))"
      by (intro round_half_even_ge_pow2) simp_all
    then have "pow2 52 * pow2 ky \<le> of_int (round_half_even (y / pow2 ky)) * pow2 ky"
      using pow2_pos [of ky] by (intro mult_right_mono) simp_all
    then have lower: "pow2 ey \<le> binary64 y"
      unfolding by' ky using pow2_add [of 52 "ey - 52"] by simp
    have "x / pow2 kx \<le> pow2 (ex + 1 - kx)"
    proof -
      have "pow2 (ex + 1) = pow2 (ex + 1 - kx) * pow2 kx"
        using pow2_add [of "ex + 1 - kx" kx] by simp
      then show ?thesis using xb(2) pow2_pos [of kx] by (simp add: pos_divide_le_eq)
    qed
    moreover have "0 \<le> x / pow2 kx" using assms(1) pow2_pos [of kx] by simp
    ultimately have "of_int (round_half_even (x / pow2 kx)) \<le> pow2 (ex + 1 - kx)"
      by (intro round_half_even_le_pow2)
    then have "of_int (round_half_even (x / pow2 kx)) * pow2 kx \<le> pow2 (ex + 1 - kx) * pow2 kx"
      using pow2_pos [of kx] by (intro mult_right_mono) simp_all
    then have upper: "binary64 x \<le> pow2 (ex + 1)"
      unfolding bx using pow2_add [of "ex + 1 - kx" kx] by simp
    have "pow2 (ex + 1) \<le> pow2 ey" using lt by (intro pow2_mono) simp
    then show ?thesis using upper lower by linarith
  qed
qed

lemma binary64_mono: "mono binary64"
proof (rule monoI)
  fix x y :: real
  assume le: "x \<le> y"
  consider "0 < x" | "x = 0" | "x < 0" "0 \<le> y" | "x < 0" "y < 0" by linarith
  then show "binary64 x \<le> binary64 y"
  proof cases
    case 1
    then show ?thesis using le by (rule binary64_mono_pos)
  next
    case 2
    then show ?thesis using le binary64_nonneg [of y] by (simp add: binary64_zero)
  next
    case 3
    have "0 \<le> binary64 (- x)" using 3(1) by (intro binary64_nonneg) simp
    then have "binary64 x \<le> 0" using binary64_minus [of x] by simp
    then show ?thesis using binary64_nonneg [OF 3(2)] by linarith
  next
    case 4
    have "binary64 (- y) \<le> binary64 (- x)" using 4 le by (intro binary64_mono_pos) simp_all
    then show ?thesis by (simp add: binary64_minus)
  qed
qed

lemma binary64_fixes:
  assumes "\<bar>k\<bar> < 2 ^ 53" "- 1074 \<le> e"
  shows "binary64 (of_int k * pow2 e) = of_int k * pow2 e"
proof (cases "k = 0")
  case True
  then show ?thesis by (simp add: binary64_zero)
next
  case False
  define x where "x = real_of_int k * pow2 e"
  have x0: "x \<noteq> 0" using False pow2_pos [of e] by (simp add: x_def)
  define u where "u = max (binexp x - 52) (- 1074)"
  have "\<bar>x\<bar> = of_int \<bar>k\<bar> * pow2 e" using pow2_pos [of e] by (simp add: x_def abs_mult)
  also have "\<dots> < of_int (2 ^ 53) * pow2 e"
    using assms(1) pow2_pos [of e] by (intro mult_strict_right_mono) simp_all
  also have "\<dots> = pow2 (53 + e)" using pow2_add [of 53 e] by (simp add: pow2_def)
  finally have "pow2 (binexp x) < pow2 (53 + e)" using binexp_bounds(1) [OF x0] by linarith
  then have "binexp x < 53 + e" by (rule pow2_less_cancel)
  then have ue: "u \<le> e" using assms(2) by (simp add: u_def)
  have "pow2 e = pow2 (e - u) * pow2 u" using pow2_add [of "e - u" u] by simp
  then have "x / pow2 u = of_int k * pow2 (e - u)"
    using pow2_pos [of u] by (simp add: x_def)
  also have "\<dots> = of_int (k * 2 ^ nat (e - u))" using ue by (simp add: pow2_nat)
  finally have q: "x / pow2 u = of_int (k * 2 ^ nat (e - u))" .
  have "binary64 x = of_int (round_half_even (x / pow2 u)) * pow2 u"
    using x0 by (simp add: binary64_def Let_def u_def)
  also have "\<dots> = x / pow2 u * pow2 u" unfolding q round_half_even_of_int ..
  also have "\<dots> = x" using pow2_pos [of u] by simp
  finally show ?thesis unfolding x_def .
qed

lemma binary64_of_int:
  assumes "\<bar>k\<bar> < 2 ^ 53"
  shows "binary64 (of_int k) = of_int k"
  using binary64_fixes [OF assms, of 0] by (simp add: pow2_def)

lemma binary64_dyadic:
  assumes "\<bar>k\<bar> < 2 ^ 53" "n \<le> 1074"
  shows "binary64 (of_int k / 2 ^ n) = of_int k / 2 ^ n"
proof -
  have "pow2 (- int n) = 1 / 2 ^ n" by (simp add: pow2_def)
  then show ?thesis using binary64_fixes [OF assms(1), of "- int n"] assms(2) by simp
qed

lemma binary64_numeral:
  assumes "numeral n < (2::int) ^ 53"
  shows "binary64 (numeral n) = numeral n" "binary64 (- numeral n) = - numeral n"
  using binary64_of_int [of "numeral n"] binary64_of_int [of "- numeral n"] assms by simp_all

lemma binary64_one: "binary64 1 = 1"
  using binary64_of_int [of 1] by simp

lemma exact_mono: "mono exact"
  by (simp add: mono_def exact_def)



section \<open>Label conversion\<close>
























section \<open>The tile grid\<close>

lemma get_tiles_append:
  "get_tiles rnd bounds_of (xs @ ys) mw mh =
     (case get_tiles rnd bounds_of xs mw mh of
        Inl e \<Rightarrow> Inl e
      | Inr a \<Rightarrow> (case get_tiles rnd bounds_of ys mw mh of Inl e \<Rightarrow> Inl e | Inr b \<Rightarrow> Inr (a @ b)))"
  by (induction xs) (auto split: sum.splits)

lemma get_tiles_split:
  assumes "get_tiles rnd bounds_of areas mw mh = Inr tiles" "a < length areas"
  shows "\<exists>before ts after.
           get_tiles rnd bounds_of (take a areas) mw mh = Inr before
         \<and> tiles_of_row rnd bounds_of mw mh (areas ! a) = Inr ts
         \<and> get_tiles rnd bounds_of (drop (Suc a) areas) mw mh = Inr after
         \<and> tiles = before @ ts @ after"
proof -
  have "areas = take a areas @ areas ! a # drop (Suc a) areas"
    using assms(2) by (rule id_take_nth_drop)
  then have "get_tiles rnd bounds_of (take a areas @ areas ! a # drop (Suc a) areas) mw mh = Inr tiles"
    using assms(1) by simp
  then show ?thesis unfolding get_tiles_append by (auto split: sum.splits)
qed




lemma tiles_of_row_Inr:
  assumes "tiles_of_row rnd bounds_of mw mh (fs, g) = Inr ts"
    and "bounds_of g = (min_x, min_y, max_x, max_y)"
  defines "n_cols \<equiv> \<lceil>rnd (rnd (max_x - min_x) / mw)\<rceil>"
    and "n_rows \<equiv> \<lceil>rnd (rnd (max_y - min_y) / mh)\<rceil>"
  shows "ts = grid_tiles rnd min_x min_y (rnd (rnd (max_x - min_x) / rnd (of_int n_cols)))
                (rnd (rnd (max_y - min_y) / rnd (of_int n_rows))) n_cols n_rows fs g"
    and "mw \<noteq> 0" and "mh \<noteq> 0"
    and "rnd (of_int n_cols) \<noteq> 0" and "rnd (of_int n_rows) \<noteq> 0"
  using assms by (auto simp add: tiles_of_row_def Let_def split: if_splits)

lemma grid_tiles_nth:
  assumes "i < nat n_cols" "j < nat n_rows"
  shows "grid_tiles rnd min_x min_y tw th n_cols n_rows fs g ! (i * nat n_rows + j)
       = (tile_id_of rnd min_x min_y tw th i j, fs,
          Intersection (box_of (grid_cell rnd min_x min_y tw th i j)) g)"
proof -
  let ?m = "nat n_rows"
  have "i * ?m + j < i * ?m + ?m" using assms(2) by simp
  also have "\<dots> = (i + 1) * ?m" by simp
  also have "\<dots> \<le> nat n_cols * ?m" using assms(1) by (intro mult_le_mono1) simp
  finally have lt: "i * ?m + j < length [0..<nat n_cols] * length [0..<?m]" by simp
  have d: "(i * ?m + j) div ?m = i" and m: "(i * ?m + j) mod ?m = j"
    using assms(2) by simp_all
  have "List.product [0..<nat n_cols] [0..<?m] ! (i * ?m + j) = (i, j)"
    unfolding List.product_nth [OF lt] using assms d m by simp
  moreover have "i * ?m + j < length (List.product [0..<nat n_cols] [0..<?m])"
    using lt by simp
  ultimately show ?thesis
    by (simp add: grid_tiles_def del: length_product)
qed

lemma cell_edge_mono:
  assumes "mono rnd" "0 \<le> t" "i \<le> k"
  shows "cell_edge rnd lo t i \<le> cell_edge rnd lo t k"
proof -
  have "rnd (of_nat i) \<le> rnd (of_nat k)" using assms(1,3) by (simp add: monoD)
  then have "rnd (of_nat i) * t \<le> rnd (of_nat k) * t" using assms(2) by (rule mult_right_mono)
  then have "rnd (rnd (of_nat i) * t) \<le> rnd (rnd (of_nat k) * t)" using assms(1) by (rule monoD [rotated])
  then have "lo + rnd (rnd (of_nat i) * t) \<le> lo + rnd (rnd (of_nat k) * t)" by simp
  then show ?thesis unfolding cell_edge_def using assms(1) by (rule monoD [rotated])
qed

lemma cell_edge_0:
  assumes "rnd 0 = 0" "rnd lo = lo"
  shows "cell_edge rnd lo t 0 = lo"
  using assms by (simp add: cell_edge_def)

lemma cell_edge_exact: "cell_edge exact lo t i = lo + of_nat i * t"
  by (simp add: cell_edge_def exact_def)

lemma chain_cover:
  fixes c :: "nat \<Rightarrow> real"
  assumes "\<And>i k. i \<le> k \<Longrightarrow> c i \<le> c k" "0 < n" "c 0 \<le> x" "x \<le> c n"
  shows "\<exists>i<n. c i \<le> x \<and> x \<le> c (i + 1)"
  using assms(2,4)
proof (induction n)
  case 0
  then show ?case by simp
next
  case (Suc n)
  show ?case
  proof (cases "x \<le> c n")
    case True
    show ?thesis
    proof (cases "n = 0")
      case True
      then show ?thesis using assms(3) Suc.prems(2) by auto
    next
      case False
      then obtain i where "i < n" "c i \<le> x" "x \<le> c (i + 1)" using Suc.IH True by auto
      then show ?thesis using less_Suc_eq by auto
    qed
  next
    case False
    then have "c n \<le> x" by simp
    then show ?thesis using Suc.prems(2) by auto
  qed
qed

lemma chain_inside:
  fixes c :: "nat \<Rightarrow> real"
  assumes "\<And>i k. i \<le> k \<Longrightarrow> c i \<le> c k" "i < n" "c i \<le> x" "x \<le> c (i + 1)"
  shows "c 0 \<le> x \<and> x \<le> c n"
proof -
  have "c 0 \<le> c i" by (rule assms(1)) simp
  moreover have "c (i + 1) \<le> c n" by (rule assms(1)) (use assms(2) in simp)
  ultimately show ?thesis using assms(3,4) by linarith
qed

lemma chain_disjoint:
  fixes c :: "nat \<Rightarrow> real"
  assumes "\<And>i k. i \<le> k \<Longrightarrow> c i \<le> c k" "i \<noteq> k"
    and "c i < x" "x < c (i + 1)" "c k < x" "x < c (k + 1)"
  shows False
proof (cases "i < k")
  case True
  then have "c (i + 1) \<le> c k" by (intro assms(1)) simp
  then show False using assms(4,5) by linarith
next
  case False
  then have "k < i" using assms(2) by simp
  then have "c (k + 1) \<le> c i" by (intro assms(1)) simp
  then show False using assms(3,6) by linarith
qed

lemma rect_grid_cell:
  "p \<in> rect (grid_cell rnd min_x min_y tw th i j) \<longleftrightarrow>
     cell_edge rnd min_x tw i \<le> fst p \<and> fst p \<le> cell_edge rnd min_x tw (i + 1)
   \<and> cell_edge rnd min_y th j \<le> snd p \<and> snd p \<le> cell_edge rnd min_y th (j + 1)"
  by (auto simp add: rect_def grid_cell_def)

lemma interior_grid_cell:
  "p \<in> interior (grid_cell rnd min_x min_y tw th i j) \<longleftrightarrow>
     cell_edge rnd min_x tw i < fst p \<and> fst p < cell_edge rnd min_x tw (i + 1)
   \<and> cell_edge rnd min_y th j < snd p \<and> snd p < cell_edge rnd min_y th (j + 1)"
  by (auto simp add: interior_def grid_cell_def)

lemma grid_covers:
  assumes "mono rnd" "0 \<le> tw" "0 \<le> th" "0 < n" "0 < m"
  shows "(\<Union>i<n. \<Union>j<m. rect (grid_cell rnd min_x min_y tw th i j))
         = rect (cell_edge rnd min_x tw 0, cell_edge rnd min_y th 0,
                 cell_edge rnd min_x tw n, cell_edge rnd min_y th m)"
proof (intro set_eqI iffI)
  fix p
  assume "p \<in> (\<Union>i<n. \<Union>j<m. rect (grid_cell rnd min_x min_y tw th i j))"
  then obtain i j where ij: "i < n" "j < m"
    and p: "p \<in> rect (grid_cell rnd min_x min_y tw th i j)"
    by auto
  have x: "cell_edge rnd min_x tw 0 \<le> fst p \<and> fst p \<le> cell_edge rnd min_x tw n"
    by (rule chain_inside [where c = "cell_edge rnd min_x tw", OF cell_edge_mono [OF assms(1,2)] ij(1)])
      (use p in \<open>simp_all add: rect_grid_cell\<close>)
  have y: "cell_edge rnd min_y th 0 \<le> snd p \<and> snd p \<le> cell_edge rnd min_y th m"
    by (rule chain_inside [where c = "cell_edge rnd min_y th", OF cell_edge_mono [OF assms(1,3)] ij(2)])
      (use p in \<open>simp_all add: rect_grid_cell\<close>)
  show "p \<in> rect (cell_edge rnd min_x tw 0, cell_edge rnd min_y th 0,
                 cell_edge rnd min_x tw n, cell_edge rnd min_y th m)"
    using x y by (simp add: rect_def)
next
  fix p
  assume "p \<in> rect (cell_edge rnd min_x tw 0, cell_edge rnd min_y th 0,
                 cell_edge rnd min_x tw n, cell_edge rnd min_y th m)"
  then have px: "cell_edge rnd min_x tw 0 \<le> fst p" "fst p \<le> cell_edge rnd min_x tw n"
    and py: "cell_edge rnd min_y th 0 \<le> snd p" "snd p \<le> cell_edge rnd min_y th m"
    by (simp_all add: rect_def)
  obtain i where i: "i < n" "cell_edge rnd min_x tw i \<le> fst p" "fst p \<le> cell_edge rnd min_x tw (i + 1)"
    using chain_cover [where c = "cell_edge rnd min_x tw", OF cell_edge_mono [OF assms(1,2)] assms(4) px]
    by blast
  obtain j where j: "j < m" "cell_edge rnd min_y th j \<le> snd p" "snd p \<le> cell_edge rnd min_y th (j + 1)"
    using chain_cover [where c = "cell_edge rnd min_y th", OF cell_edge_mono [OF assms(1,3)] assms(5) py]
    by blast
  have "p \<in> rect (grid_cell rnd min_x min_y tw th i j)"
    using i j by (simp add: rect_grid_cell)
  then show "p \<in> (\<Union>i<n. \<Union>j<m. rect (grid_cell rnd min_x min_y tw th i j))"
    using i(1) j(1) by blast
qed

lemma grid_disjoint:
  assumes "mono rnd" "0 \<le> tw" "0 \<le> th" "(i, j) \<noteq> (k, l)"
  shows "interior (grid_cell rnd min_x min_y tw th i j)
       \<inter> interior (grid_cell rnd min_x min_y tw th k l) = {}"
proof (rule ccontr)
  assume "interior (grid_cell rnd min_x min_y tw th i j)
       \<inter> interior (grid_cell rnd min_x min_y tw th k l) \<noteq> {}"
  then obtain p where a: "p \<in> interior (grid_cell rnd min_x min_y tw th i j)"
    and b: "p \<in> interior (grid_cell rnd min_x min_y tw th k l)" by blast
  show False
  proof (cases "i = k")
    case False
    show False
      by (rule chain_disjoint [where c = "cell_edge rnd min_x tw" and x = "fst p",
            OF cell_edge_mono [OF assms(1,2)] False])
        (use a b in \<open>simp_all add: interior_grid_cell\<close>)
  next
    case True
    then have jl: "j \<noteq> l" using assms(4) by simp
    show False
      by (rule chain_disjoint [where c = "cell_edge rnd min_y th" and x = "snd p",
            OF cell_edge_mono [OF assms(1,3)] jl])
        (use a b in \<open>simp_all add: interior_grid_cell\<close>)
  qed
qed

lemma count_positive:
  fixes rnd :: "real \<Rightarrow> real"
  assumes "mono rnd" "rnd 0 = 0" "0 \<le> W" "0 < m" "rnd (of_int \<lceil>rnd (rnd W / m)\<rceil>) \<noteq> 0"
  shows "1 \<le> \<lceil>rnd (rnd W / m)\<rceil>" "0 \<le> rnd (rnd W / rnd (of_int \<lceil>rnd (rnd W / m)\<rceil>))"
proof -
  have W: "0 \<le> rnd W" using monoD [OF assms(1,3)] assms(2) by simp
  then have "0 \<le> rnd W / m" using assms(4) by simp
  then have "0 \<le> rnd (rnd W / m)" using monoD [OF assms(1), of 0 "rnd W / m"] assms(2) by simp
  then have "0 \<le> \<lceil>rnd (rnd W / m)\<rceil>" by (simp add: ceiling_mono [of 0, simplified])
  moreover have "\<lceil>rnd (rnd W / m)\<rceil> \<noteq> 0" using assms(2,5) by auto
  ultimately show c: "1 \<le> \<lceil>rnd (rnd W / m)\<rceil>" by linarith
  have "(0::real) \<le> of_int \<lceil>rnd (rnd W / m)\<rceil>" using c by simp
  then have "0 \<le> rnd (of_int \<lceil>rnd (rnd W / m)\<rceil>)"
    using monoD [OF assms(1), of 0 "of_int \<lceil>rnd (rnd W / m)\<rceil>"] assms(2) by simp
  then have "0 \<le> rnd W / rnd (of_int \<lceil>rnd (rnd W / m)\<rceil>)" using W by simp
  then show "0 \<le> rnd (rnd W / rnd (of_int \<lceil>rnd (rnd W / m)\<rceil>))"
    using monoD [OF assms(1), of 0 "rnd W / rnd (of_int \<lceil>rnd (rnd W / m)\<rceil>)"] assms(2) by simp
qed

lemma tile_size_le:
  fixes W m :: real
  assumes "1 \<le> \<lceil>W / m\<rceil>" "0 < m"
  shows "W / of_int \<lceil>W / m\<rceil> \<le> m"
proof -
  have n: "0 < real_of_int \<lceil>W / m\<rceil>" using assms(1) by simp
  have "W / m \<le> of_int \<lceil>W / m\<rceil>" by (rule le_of_int_ceiling)
  then have "W \<le> of_int \<lceil>W / m\<rceil> * m" by (simp only: pos_divide_le_eq [OF assms(2)])
  then show ?thesis using n by (simp add: pos_divide_le_eq mult.commute)
qed

lemma last_edge_exact:
  assumes "1 \<le> (n::int)"
  shows "cell_edge exact lo (exact (exact (hi - lo) / exact (of_int n))) (nat n) = hi"
  using assms by (simp add: cell_edge_def exact_def)

lemma str_int_examples:
  "str_int 0 = ''0''" "str_int 500 = ''500''" "str_int 1000 = ''1000''"
  "str_int (- 1) = ''-1''" "str_int 50 = ''50''"
  by (simp_all add: str_int_def str_nat.simps digit_char_def)

lemma upt_2: "[0..<2] = [0, 1::nat]"
  by (simp add: numeral_2_eq_2 upt_rec)

text \<open>
  C3, as amended.  Take any table of Areas on which \<^verbatim>\<open>get_tiles\<close> returns, with
  positive maximum tile dimensions \<open>(mw, mh)\<close>, and any Area of it, with a bounding
  box whose lower-left corner is a float.  Computed with a rounding that is monotone
  and keeps 0, as the rounding of a double is, the tiles of the table are those of the
  rows before the Area, then one record per cell of the Area's grid with the cell
  intersected with the Area as geometry, then those of the rows after; the grid has
  \<open>n_cols = \<lceil>fl (W / mw)\<rceil>\<close> by \<open>n_rows = \<lceil>fl (H / mh)\<rceil>\<close> cells, at least one
  each way, the quotients being the rounded ones; the union of the cells is the box from
  \<open>(min_x, min_y)\<close> to the last edges the code computes; and two different cells have
  no interior point in common.  Computed in exact arithmetic, moreover,
  \<open>n_cols = \<lceil>W / mw\<rceil>\<close> and \<open>n_rows = \<lceil>H / mh\<rceil>\<close>, every cell is \<open>W / n_cols\<close>
  wide and \<open>H / n_rows\<close> high, which is at most \<open>mw\<close> and \<open>mh\<close>, and the union
  of the cells is the bounding box.
\<close>

theorem grid_coverage:
  fixes rnd :: "real \<Rightarrow> real"
  assumes rnd: "mono rnd" "rnd 0 = 0"
    and limits: "0 < mw" "0 < mh"
    and run: "get_tiles rnd bounds_of areas mw mh = Inr tiles"
    and area: "a < length areas" "areas ! a = (fs, g)"
      "bounds_of g = (min_x, min_y, max_x, max_y)"
    and box: "min_x \<le> max_x" "min_y \<le> max_y" "rnd min_x = min_x" "rnd min_y = min_y"
  defines "n_cols \<equiv> \<lceil>rnd (rnd (max_x - min_x) / mw)\<rceil>"
    and "n_rows \<equiv> \<lceil>rnd (rnd (max_y - min_y) / mh)\<rceil>"
  defines "tw \<equiv> rnd (rnd (max_x - min_x) / rnd (of_int n_cols))"
    and "th \<equiv> rnd (rnd (max_y - min_y) / rnd (of_int n_rows))"
  defines "cell \<equiv> grid_cell rnd min_x min_y tw th"
  shows "(\<exists>before after.
            get_tiles rnd bounds_of (take a areas) mw mh = Inr before
          \<and> get_tiles rnd bounds_of (drop (Suc a) areas) mw mh = Inr after
          \<and> tiles = before
              @ map (\<lambda>(i, j). (tile_id_of rnd min_x min_y tw th i j, fs,
                                Intersection (box_of (cell i j)) g))
                  (List.product [0..<nat n_cols] [0..<nat n_rows])
              @ after)
       \<and> 1 \<le> n_cols \<and> 1 \<le> n_rows
       \<and> (\<Union>i<nat n_cols. \<Union>j<nat n_rows. rect (cell i j))
           = rect (min_x, min_y, cell_edge rnd min_x tw (nat n_cols),
                   cell_edge rnd min_y th (nat n_rows))
       \<and> (\<forall>i j k l. (i, j) \<noteq> (k, l) \<longrightarrow> interior (cell i j) \<inter> interior (cell k l) = {})
       \<and> (rnd = exact \<longrightarrow>
            n_cols = \<lceil>(max_x - min_x) / mw\<rceil> \<and> n_rows = \<lceil>(max_y - min_y) / mh\<rceil>
          \<and> tw = (max_x - min_x) / of_int n_cols \<and> th = (max_y - min_y) / of_int n_rows
          \<and> tw \<le> mw \<and> th \<le> mh
          \<and> (\<forall>i j. bbox_width (cell i j) = tw \<and> bbox_height (cell i j) = th)
          \<and> (\<Union>i<nat n_cols. \<Union>j<nat n_rows. rect (cell i j)) = rect (min_x, min_y, max_x, max_y))"
proof -
  obtain before ts after where
    before: "get_tiles rnd bounds_of (take a areas) mw mh = Inr before"
    and row: "tiles_of_row rnd bounds_of mw mh (fs, g) = Inr ts"
    and after: "get_tiles rnd bounds_of (drop (Suc a) areas) mw mh = Inr after"
    and tiles: "tiles = before @ ts @ after"
    using get_tiles_split [OF run area(1)] unfolding area(2) by blast
  note r = tiles_of_row_Inr [OF row area(3)]
  have ts: "ts = map (\<lambda>(i, j). (tile_id_of rnd min_x min_y tw th i j, fs,
                                Intersection (box_of (cell i j)) g))
                  (List.product [0..<nat n_cols] [0..<nat n_rows])"
    unfolding r(1) grid_tiles_def cell_def tw_def th_def n_cols_def n_rows_def ..
  have table: "\<exists>before after.
            get_tiles rnd bounds_of (take a areas) mw mh = Inr before
          \<and> get_tiles rnd bounds_of (drop (Suc a) areas) mw mh = Inr after
          \<and> tiles = before
              @ map (\<lambda>(i, j). (tile_id_of rnd min_x min_y tw th i j, fs,
                                Intersection (box_of (cell i j)) g))
                  (List.product [0..<nat n_cols] [0..<nat n_rows])
              @ after"
    using before after tiles unfolding ts by blast
  have W: "0 \<le> max_x - min_x" and H: "0 \<le> max_y - min_y" using box(1,2) by simp_all
  have c: "1 \<le> n_cols" and tw0: "0 \<le> tw"
    unfolding n_cols_def tw_def
    by (rule count_positive [OF rnd W limits(1) r(4)])+
  have rw: "1 \<le> n_rows" and th0: "0 \<le> th"
    unfolding n_rows_def th_def
    by (rule count_positive [OF rnd H limits(2) r(5)])+
  have cpos: "0 < nat n_cols" and rpos: "0 < nat n_rows" using c rw by simp_all
  have cover: "(\<Union>i<nat n_cols. \<Union>j<nat n_rows. rect (cell i j))
           = rect (min_x, min_y, cell_edge rnd min_x tw (nat n_cols),
                   cell_edge rnd min_y th (nat n_rows))"
    unfolding cell_def grid_covers [OF rnd(1) tw0 th0 cpos rpos]
      cell_edge_0 [OF rnd(2) box(3)] cell_edge_0 [OF rnd(2) box(4)] ..
  have disj: "\<forall>i j k l. (i, j) \<noteq> (k, l) \<longrightarrow> interior (cell i j) \<inter> interior (cell k l) = {}"
    unfolding cell_def using grid_disjoint [OF rnd(1) tw0 th0] by blast
  have ex: "rnd = exact \<longrightarrow>
            n_cols = \<lceil>(max_x - min_x) / mw\<rceil> \<and> n_rows = \<lceil>(max_y - min_y) / mh\<rceil>
          \<and> tw = (max_x - min_x) / of_int n_cols \<and> th = (max_y - min_y) / of_int n_rows
          \<and> tw \<le> mw \<and> th \<le> mh
          \<and> (\<forall>i j. bbox_width (cell i j) = tw \<and> bbox_height (cell i j) = th)
          \<and> (\<Union>i<nat n_cols. \<Union>j<nat n_rows. rect (cell i j)) = rect (min_x, min_y, max_x, max_y)"
  proof
    assume e: "rnd = exact"
    have nc: "n_cols = \<lceil>(max_x - min_x) / mw\<rceil>" and nr: "n_rows = \<lceil>(max_y - min_y) / mh\<rceil>"
      unfolding n_cols_def n_rows_def e by (simp_all add: exact_def)
    have tw: "tw = (max_x - min_x) / of_int n_cols" and th: "th = (max_y - min_y) / of_int n_rows"
      unfolding tw_def th_def e by (simp_all add: exact_def)
    have tw_le: "tw \<le> mw" unfolding tw nc by (rule tile_size_le [OF c [unfolded nc] limits(1)])
    have th_le: "th \<le> mh" unfolding th nr by (rule tile_size_le [OF rw [unfolded nr] limits(2)])
    have size: "\<forall>i j. bbox_width (cell i j) = tw \<and> bbox_height (cell i j) = th"
      unfolding cell_def e
      by (simp add: grid_cell_def cell_edge_exact bbox_width_def bbox_height_def algebra_simps)
    have lx: "cell_edge rnd min_x tw (nat n_cols) = max_x"
      unfolding tw_def e by (rule last_edge_exact [OF c])
    have ly: "cell_edge rnd min_y th (nat n_rows) = max_y"
      unfolding th_def e by (rule last_edge_exact [OF rw])
    show "n_cols = \<lceil>(max_x - min_x) / mw\<rceil> \<and> n_rows = \<lceil>(max_y - min_y) / mh\<rceil>
          \<and> tw = (max_x - min_x) / of_int n_cols \<and> th = (max_y - min_y) / of_int n_rows
          \<and> tw \<le> mw \<and> th \<le> mh
          \<and> (\<forall>i j. bbox_width (cell i j) = tw \<and> bbox_height (cell i j) = th)
          \<and> (\<Union>i<nat n_cols. \<Union>j<nat n_rows. rect (cell i j)) = rect (min_x, min_y, max_x, max_y)"
      using nc nr tw th tw_le th_le size cover unfolding lx ly by blast
  qed
  show ?thesis by (intro conjI table c rw cover disj ex)
qed

theorem grid_coverage_witness:
  "get_tiles exact (\<lambda>s. case s of Geom b \<Rightarrow> b | _ \<Rightarrow> (0, 0, 0, 0))
     [([(''split'', ''train'')], Geom (0, 0, 1000, 1000)),
      ([(''split'', ''val'')], Geom (1000, 0, 1500, 500))] 600 600
     = Inr [(''0_0'', [(''split'', ''train'')], Intersection (Box 0 0 500 500) (Geom (0, 0, 1000, 1000))),
            (''0_500'', [(''split'', ''train'')], Intersection (Box 0 500 500 1000) (Geom (0, 0, 1000, 1000))),
            (''500_0'', [(''split'', ''train'')], Intersection (Box 500 0 1000 500) (Geom (0, 0, 1000, 1000))),
            (''500_500'', [(''split'', ''train'')], Intersection (Box 500 500 1000 1000) (Geom (0, 0, 1000, 1000))),
            (''1000_0'', [(''split'', ''val'')], Intersection (Box 1000 0 1500 500) (Geom (1000, 0, 1500, 500)))]
   \<and> (500 :: real) \<le> 600 \<and> bbox_width (grid_cell exact 0 0 500 500 1 0) = 500
   \<and> (\<Union>i<2. \<Union>j<2. rect (grid_cell exact 0 0 500 500 i j)) = rect (0, 0, 1000, 1000)
   \<and> interior (grid_cell exact 0 0 500 500 0 0) \<inter> interior (grid_cell exact 0 0 500 500 1 0) = {}
   \<and> get_tiles binary64 (\<lambda>s. case s of Geom b \<Rightarrow> b | _ \<Rightarrow> (0, 0, 0, 0))
     [([(''split'', ''train'')], Geom (0, 0, 1000, 1000)),
      ([(''split'', ''val'')], Geom (1000, 0, 1500, 500))] 512 512
     = Inr [(''0_0'', [(''split'', ''train'')], Intersection (Box 0 0 500 500) (Geom (0, 0, 1000, 1000))),
            (''0_500'', [(''split'', ''train'')], Intersection (Box 0 500 500 1000) (Geom (0, 0, 1000, 1000))),
            (''500_0'', [(''split'', ''train'')], Intersection (Box 500 0 1000 500) (Geom (0, 0, 1000, 1000))),
            (''500_500'', [(''split'', ''train'')], Intersection (Box 500 500 1000 1000) (Geom (0, 0, 1000, 1000))),
            (''1000_0'', [(''split'', ''val'')], Intersection (Box 1000 0 1500 500) (Geom (1000, 0, 1500, 500)))]
   \<and> (\<Union>i<2. \<Union>j<2. rect (grid_cell binary64 0 0 500 500 i j)) = rect (0, 0, 1000, 1000)"
proof -
  let ?bounds_of = "\<lambda>s. case s of Geom b \<Rightarrow> b | _ \<Rightarrow> (0::real, 0::real, 0::real, 0::real)"
  let ?train = "Geom (0::real, 0::real, 1000::real, 1000::real)"
  let ?val = "Geom (1000::real, 0::real, 1500::real, 500::real)"
  let ?areas = "[([(''split'', ''train'')], ?train), ([(''split'', ''val'')], ?val)]"
  let ?tiles = "[(''0_0'', [(''split'', ''train'')], Intersection (Box 0 0 500 500) ?train),
            (''0_500'', [(''split'', ''train'')], Intersection (Box 0 500 500 1000) ?train),
            (''500_0'', [(''split'', ''train'')], Intersection (Box 500 0 1000 500) ?train),
            (''500_500'', [(''split'', ''train'')], Intersection (Box 500 500 1000 1000) ?train),
            (''1000_0'', [(''split'', ''val'')], Intersection (Box 1000 0 1500 500) ?val)]"
  have d: "binary64 (125 / 64) = 125 / 64" "binary64 (125 / 128) = 125 / 128"
    using binary64_dyadic [of 125 6] binary64_dyadic [of 125 7] by simp_all
  have run: "get_tiles exact ?bounds_of ?areas 600 600 = Inr ?tiles"
    by (simp add: tiles_of_row_def grid_tiles_def tile_id_of_def grid_cell_def cell_edge_def
        box_of_def py_int_def exact_def str_int_examples upt_2)
  have run64: "get_tiles binary64 ?bounds_of ?areas 512 512 = Inr ?tiles"
    by (simp add: tiles_of_row_def grid_tiles_def tile_id_of_def grid_cell_def cell_edge_def
        box_of_def py_int_def binary64_numeral binary64_zero binary64_one d str_int_examples upt_2)
  note E = grid_coverage [OF exact_mono _ _ _ run, of 0 "[(''split'', ''train'')]" ?train 0 0 1000 1000]
  note B = grid_coverage [OF binary64_mono binary64_zero _ _ run64,
      of 0 "[(''split'', ''train'')]" ?train 0 0 1000 1000]
  have cover: "(\<Union>i<2. \<Union>j<2. rect (grid_cell exact 0 0 500 500 i j)) = rect (0, 0, 1000, 1000)"
    using E by (simp add: exact_def cell_edge_def)
  have size: "bbox_width (grid_cell exact 0 0 500 500 1 0) = 500"
    using E by (simp add: exact_def)
  have "\<forall>i j k l. (i, j) \<noteq> (k, l) \<longrightarrow>
      interior (grid_cell exact 0 0 500 500 i j) \<inter> interior (grid_cell exact 0 0 500 500 k l) = {}"
    using E by (simp add: exact_def)
  then have "(0::nat, 0::nat) \<noteq> (1, 0) \<longrightarrow>
      interior (grid_cell exact 0 0 500 500 0 0) \<inter> interior (grid_cell exact 0 0 500 500 1 0) = {}"
    by blast
  then have disj: "interior (grid_cell exact 0 0 500 500 0 0) \<inter> interior (grid_cell exact 0 0 500 500 1 0) = {}"
    by simp
  have cover64: "(\<Union>i<2. \<Union>j<2. rect (grid_cell binary64 0 0 500 500 i j)) = rect (0, 0, 1000, 1000)"
    using B by (simp add: binary64_numeral binary64_zero binary64_one d cell_edge_def)
  show ?thesis using run run64 cover size disj cover64 by simp
qed

text \<open>
  As the claim states it, for every Area and of the code as Python runs it, it fails
  twice.  A bounding box of height 0 gives \<open>n_rows = 0\<close>, and dividing the height by
  it raises.  And with doubles the cells need not tile the bounding box: for the box
  \<open>(0, 0, 15, 1)\<close> and a maximum width of \<open>11 / 8\<close> there are 11 columns of width
  \<open>fl (15 / 11)\<close>, the right edge of the last one is \<open>fl (11 * fl (15 / 11))\<close>, less
  than 15, and the point \<open>(15, 1 / 2)\<close> of the bounding box lies in no cell.
\<close>

theorem grid_coverage_counterexample:
  "get_tiles binary64 (\<lambda>g. (0, 0, 10, 0)) [([(''split'', ''train'')], Geom ())] 5 5
     = Inl ZeroDivisionError
   \<and> get_tiles binary64 (\<lambda>g. (0, 0, 15, 1)) [([(''split'', ''train'')], Geom ())] (11 / 8) 1
     = Inr (grid_tiles binary64 0 0 (6141272219141585 / 4503599627370496) 1 11 1
              [(''split'', ''train'')] (Geom ()))
   \<and> (15, 1 / 2) \<in> rect (0, 0, 15, 1)
   \<and> (15, 1 / 2) \<notin> (\<Union>i<11. \<Union>j<1.
         rect (grid_cell binary64 0 0 (6141272219141585 / 4503599627370496) 1 i j))"
proof -
  have q: "binary64 (120 / 11) = 6141272219141585 / 562949953421312"
    by (rule binary64_eval [where e = "3" and m = "6141272219141585"]) (simp_all add: pow2_def round_half_even_def Let_def)
  have tw: "binary64 (15 / 11) = 6141272219141585 / 4503599627370496"
    by (rule binary64_eval [where e = "0" and m = "6141272219141585"]) (simp_all add: pow2_def round_half_even_def Let_def)
  have p: "binary64 (67553994410557435 / 4503599627370496) = 8444249301319679 / 562949953421312"
    by (rule binary64_eval [where e = "3" and m = "8444249301319679"]) (simp_all add: pow2_def round_half_even_def Let_def)
  have pv: "binary64 (8444249301319679 / 562949953421312) = 8444249301319679 / 562949953421312"
    using binary64_dyadic [of 8444249301319679 49] by simp
  have zero: "get_tiles binary64 (\<lambda>g. (0, 0, 10, 0)) [([(''split'', ''train'')], Geom ())] 5 5
     = Inl ZeroDivisionError"
    by (simp add: tiles_of_row_def binary64_numeral binary64_zero)
  have run: "get_tiles binary64 (\<lambda>g. (0, 0, 15, 1)) [([(''split'', ''train'')], Geom ())] (11 / 8) 1
     = Inr (grid_tiles binary64 0 0 (6141272219141585 / 4503599627370496) 1 11 1
              [(''split'', ''train'')] (Geom ()))"
    by (simp add: tiles_of_row_def binary64_numeral binary64_zero binary64_one q tw)
  have last: "cell_edge binary64 0 (6141272219141585 / 4503599627370496) 11
      = 8444249301319679 / 562949953421312"
    by (simp add: cell_edge_def binary64_numeral p pv)
  have "(\<Union>i<11. \<Union>j<1. rect (grid_cell binary64 0 0 (6141272219141585 / 4503599627370496) 1 i j))
      = rect (cell_edge binary64 0 (6141272219141585 / 4503599627370496) 0, cell_edge binary64 0 1 0,
              cell_edge binary64 0 (6141272219141585 / 4503599627370496) 11, cell_edge binary64 0 1 1)"
    by (rule grid_covers [OF binary64_mono]) simp_all
  then have out: "(15, 1 / 2) \<notin> (\<Union>i<11. \<Union>j<1.
         rect (grid_cell binary64 0 0 (6141272219141585 / 4503599627370496) 1 i j))"
    unfolding last by (simp add: rect_def)
  have inside: "(15 :: real, 1 / 2 :: real) \<in> rect (0, 0, 15, 1)" by (simp add: rect_def)
  show ?thesis using zero run inside out by blast
qed

text \<open>
  The counts are the ceilings of the rounded quotients.  For a bounding box
  \<open>3 + 2 ^ - 50\<close> wide and a maximum width of \<open>1 + 2 ^ - 52\<close> the quotient is a little
  more than 3 and rounds to the double 3: there are 3 columns, where the ceiling of the
  quotient of the reals is 4.
\<close>

lemma get_tiles_rounded_count:
  "get_tiles binary64 (\<lambda>g. (0, 0, 3 + 1 / 2 ^ 50, 1)) [([], Geom ())] (1 + 1 / 2 ^ 52) 1
     = Inr (grid_tiles binary64 0 0 (1 + 1 / 2 ^ 52) 1 3 1 [] (Geom ()))
   \<and> \<lceil>(3 + 1 / 2 ^ 50) / (1 + 1 / 2 ^ 52) :: real\<rceil> = 4"
proof -
  have w: "binary64 (3377699720527873 / 1125899906842624) = 3377699720527873 / 1125899906842624"
    using binary64_dyadic [of 3377699720527873 50] by simp
  have q: "binary64 (13510798882111492 / 4503599627370497) = 3"
    by (rule binary64_eval [where e = "1" and m = "6755399441055744"]) (simp_all add: pow2_def round_half_even_def Let_def)
  have tw: "binary64 (3377699720527873 / 3377699720527872) = 4503599627370497 / 4503599627370496"
    by (rule binary64_eval [where e = "0" and m = "4503599627370497"]) (simp_all add: pow2_def round_half_even_def Let_def)
  show ?thesis
    by (simp add: tiles_of_row_def binary64_numeral binary64_zero binary64_one w q tw)
qed

lemma py_int_floor_iff: "py_int x = \<lfloor>x\<rfloor> \<longleftrightarrow> 0 \<le> x \<or> x = of_int \<lfloor>x\<rfloor>"
proof (cases "0 \<le> x")
  case True
  then show ?thesis by (simp add: py_int_def)
next
  case False
  have "\<lceil>x\<rceil> = \<lfloor>x\<rfloor> \<longleftrightarrow> x = of_int \<lfloor>x\<rfloor>"
  proof
    assume "\<lceil>x\<rceil> = \<lfloor>x\<rfloor>"
    then have "x \<le> of_int \<lfloor>x\<rfloor>" using le_of_int_ceiling [of x] by simp
    then show "x = of_int \<lfloor>x\<rfloor>" using of_int_floor_le [of x] by linarith
  next
    assume "x = of_int \<lfloor>x\<rfloor>"
    then obtain n where "x = of_int n" ..
    then show "\<lceil>x\<rceil> = \<lfloor>x\<rfloor>" by simp
  qed
  then show ?thesis using False by (simp add: py_int_def)
qed

lemma ceiling_halves: "\<lceil>- (1 / 2) :: real\<rceil> = 0" "\<lceil>- (3 / 2) :: real\<rceil> = - 1"
  by (simp_all add: ceiling_def)

lemma binary64_halves:
  "binary64 (1 / 2) = 1 / 2" "binary64 (- (1 / 2)) = - (1 / 2)" "binary64 (- (3 / 2)) = - (3 / 2)"
  using binary64_dyadic [of 1 1] binary64_dyadic [of "- 1" 1] binary64_dyadic [of "- 3" 1]
  by simp_all

text \<open>
  C5, as amended.  When \<^verbatim>\<open>get_tiles\<close> returns, whatever the rounding, the record
  of the cell \<open>(i, j)\<close> of an Area's grid stands at the place \<open>i * n_rows + j\<close> among
  the records of the Area, after those of the rows before it; its geometry is the box
  with the lower-left corner \<open>(x0, y0)\<close>, the coordinates
  \<open>min_x + i * tile_width\<close> and \<open>min_y + j * tile_height\<close> as the code computes them,
  intersected with the Area; and its tile id is \<open>"{x}_{y}"\<close> where \<open>x\<close> and \<open>y\<close>
  are \<open>x0\<close> and \<open>y0\<close> truncated towards zero, as \<^verbatim>\<open>int()\<close> does.  The
  truncation is the floor exactly when the coordinate is not negative or is whole; for
  a negative coordinate it is the ceiling.
\<close>

theorem tile_id_truncates:
  fixes rnd :: "real \<Rightarrow> real"
  assumes run: "get_tiles rnd bounds_of areas mw mh = Inr tiles"
    and area: "a < length areas" "areas ! a = (fs, g)"
      "bounds_of g = (min_x, min_y, max_x, max_y)"
  defines "n_cols \<equiv> \<lceil>rnd (rnd (max_x - min_x) / mw)\<rceil>"
    and "n_rows \<equiv> \<lceil>rnd (rnd (max_y - min_y) / mh)\<rceil>"
  defines "tw \<equiv> rnd (rnd (max_x - min_x) / rnd (of_int n_cols))"
    and "th \<equiv> rnd (rnd (max_y - min_y) / rnd (of_int n_rows))"
  assumes cell: "i < nat n_cols" "j < nat n_rows"
  defines "x0 \<equiv> cell_edge rnd min_x tw i" and "y0 \<equiv> cell_edge rnd min_y th j"
  shows "(\<exists>before after.
            get_tiles rnd bounds_of (take a areas) mw mh = Inr before
          \<and> get_tiles rnd bounds_of (drop (Suc a) areas) mw mh = Inr after
          \<and> length tiles = length before + nat n_cols * nat n_rows + length after
          \<and> tiles ! (length before + i * nat n_rows + j)
              = (str_int (py_int x0) @ ''_'' @ str_int (py_int y0), fs,
                 Intersection (Box x0 y0 (cell_edge rnd min_x tw (i + 1))
                                 (cell_edge rnd min_y th (j + 1))) g))
       \<and> (py_int x0 = \<lfloor>x0\<rfloor> \<longleftrightarrow> 0 \<le> x0 \<or> x0 = of_int \<lfloor>x0\<rfloor>)
       \<and> (py_int y0 = \<lfloor>y0\<rfloor> \<longleftrightarrow> 0 \<le> y0 \<or> y0 = of_int \<lfloor>y0\<rfloor>)
       \<and> (x0 < 0 \<longrightarrow> py_int x0 = \<lceil>x0\<rceil>) \<and> (y0 < 0 \<longrightarrow> py_int y0 = \<lceil>y0\<rceil>)"
proof -
  obtain before ts after where
    before: "get_tiles rnd bounds_of (take a areas) mw mh = Inr before"
    and row: "tiles_of_row rnd bounds_of mw mh (fs, g) = Inr ts"
    and after: "get_tiles rnd bounds_of (drop (Suc a) areas) mw mh = Inr after"
    and tiles: "tiles = before @ ts @ after"
    using get_tiles_split [OF run area(1)] unfolding area(2) by blast
  have ts: "ts = grid_tiles rnd min_x min_y tw th n_cols n_rows fs g"
    unfolding tw_def th_def n_cols_def n_rows_def by (rule tiles_of_row_Inr(1) [OF row area(3)])
  have len_ts: "length ts = nat n_cols * nat n_rows"
    unfolding ts by (simp add: grid_tiles_def)
  have len: "length tiles = length before + nat n_cols * nat n_rows + length after"
    unfolding tiles using len_ts by simp
  have "i * nat n_rows + j < i * nat n_rows + nat n_rows" using cell(2) by simp
  also have "\<dots> = (i + 1) * nat n_rows" by simp
  also have "\<dots> \<le> nat n_cols * nat n_rows" using cell(1) by (intro mult_le_mono1) simp
  finally have lt: "i * nat n_rows + j < length ts" unfolding len_ts .
  have "tiles ! (length before + i * nat n_rows + j) = ts ! (i * nat n_rows + j)"
    unfolding tiles using lt by (simp add: nth_append add.assoc)
  also have "\<dots> = (tile_id_of rnd min_x min_y tw th i j, fs,
          Intersection (box_of (grid_cell rnd min_x min_y tw th i j)) g)"
    unfolding ts by (rule grid_tiles_nth [OF cell])
  also have "\<dots> = (str_int (py_int x0) @ ''_'' @ str_int (py_int y0), fs,
                 Intersection (Box x0 y0 (cell_edge rnd min_x tw (i + 1))
                                 (cell_edge rnd min_y th (j + 1))) g)"
    by (simp add: tile_id_of_def grid_cell_def box_of_def x0_def y0_def Let_def)
  finally have nth: "tiles ! (length before + i * nat n_rows + j)
              = (str_int (py_int x0) @ ''_'' @ str_int (py_int y0), fs,
                 Intersection (Box x0 y0 (cell_edge rnd min_x tw (i + 1))
                                 (cell_edge rnd min_y th (j + 1))) g)" .
  have table: "\<exists>before after.
            get_tiles rnd bounds_of (take a areas) mw mh = Inr before
          \<and> get_tiles rnd bounds_of (drop (Suc a) areas) mw mh = Inr after
          \<and> length tiles = length before + nat n_cols * nat n_rows + length after
          \<and> tiles ! (length before + i * nat n_rows + j)
              = (str_int (py_int x0) @ ''_'' @ str_int (py_int y0), fs,
                 Intersection (Box x0 y0 (cell_edge rnd min_x tw (i + 1))
                                 (cell_edge rnd min_y th (j + 1))) g)"
    using before after len nth by blast
  have neg: "(x0 < 0 \<longrightarrow> py_int x0 = \<lceil>x0\<rceil>) \<and> (y0 < 0 \<longrightarrow> py_int y0 = \<lceil>y0\<rceil>)"
    by (simp add: py_int_def)
  show ?thesis
    using table py_int_floor_iff [of x0] py_int_floor_iff [of y0] neg by blast
qed

theorem tile_id_truncates_witness:
  "get_tiles binary64 (\<lambda>s. case s of Geom b \<Rightarrow> b | _ \<Rightarrow> (0, 0, 0, 0))
     [([], Geom (0, 0, 1, 1)), ([], Geom (- 3 / 2, 0, 1 / 2, 1))] 1 1
     = Inr [(''0_0'', [], Intersection (Box 0 0 1 1) (Geom (0, 0, 1, 1))),
            (''-1_0'', [], Intersection (Box (- 3 / 2) 0 (- 1 / 2) 1) (Geom (- 3 / 2, 0, 1 / 2, 1))),
            (''0_0'', [], Intersection (Box (- 1 / 2) 0 (1 / 2) 1) (Geom (- 3 / 2, 0, 1 / 2, 1)))]
   \<and> py_int (- 3 / 2) = - 1 \<and> py_int (- 3 / 2) \<noteq> \<lfloor>- 3 / 2 :: real\<rfloor>
   \<and> py_int (- 3 / 2) = \<lceil>- 3 / 2 :: real\<rceil>"
proof -
  let ?bounds_of = "\<lambda>s. case s of Geom b \<Rightarrow> b | _ \<Rightarrow> (0::real, 0::real, 0::real, 0::real)"
  let ?g = "Geom (- 3 / 2 :: real, 0 :: real, 1 / 2 :: real, 1 :: real)"
  let ?areas = "[([], Geom (0::real, 0::real, 1::real, 1::real)), ([], ?g)]"
  have run: "get_tiles binary64 ?bounds_of ?areas 1 1
     = Inr [(''0_0'', [], Intersection (Box 0 0 1 1) (Geom (0, 0, 1, 1))),
            (''-1_0'', [], Intersection (Box (- 3 / 2) 0 (- 1 / 2) 1) ?g),
            (''0_0'', [], Intersection (Box (- 1 / 2) 0 (1 / 2) 1) ?g)]"
    by (simp add: tiles_of_row_def grid_tiles_def tile_id_of_def grid_cell_def cell_edge_def
        box_of_def py_int_def binary64_numeral binary64_zero binary64_one binary64_halves
        ceiling_halves str_int_examples upt_2)
  note T = tile_id_truncates [OF run, of 1 "[]" ?g "- 3 / 2" 0 "1 / 2" 1 0 0]
  have "py_int (- 3 / 2) = \<lceil>- 3 / 2 :: real\<rceil> \<and> py_int (- 3 / 2) \<noteq> \<lfloor>- 3 / 2 :: real\<rfloor>"
    using T
    by (simp add: cell_edge_def binary64_numeral binary64_zero binary64_one binary64_halves)
  then show ?thesis using run by (simp add: ceiling_halves)
qed

text \<open>
  For a negative coordinate that is not whole the id is not made of the floor: the
  cell with the corner \<open>(-1/2, -1/2)\<close> gets the id \<open>0_0\<close>, and the floors give
  \<open>-1_-1\<close>.
\<close>

theorem tile_id_floor_counterexample:
  "get_tiles binary64 (\<lambda>g. (- 1 / 2, - 1 / 2, 1 / 2, 1 / 2)) [([], Geom ())] 1 1
     = Inr [(''0_0'', [], Intersection (Box (- 1 / 2) (- 1 / 2) (1 / 2) (1 / 2)) (Geom ()))]
   \<and> str_int \<lfloor>- 1 / 2 :: real\<rfloor> @ ''_'' @ str_int \<lfloor>- 1 / 2 :: real\<rfloor> = ''-1_-1''"
  by (simp add: tiles_of_row_def grid_tiles_def tile_id_of_def grid_cell_def cell_edge_def
      box_of_def py_int_def binary64_numeral binary64_zero binary64_one binary64_halves
      ceiling_halves str_int_examples)

text \<open>
  The tile id is made from the corner as it is computed.  For the bounding box
  \<open>(0, 0, 2, 1)\<close> and the maximum width 0.0205, the double
  \<open>5908722711110091 / 2 ^ 58\<close>, there are 98 columns of width \<open>fl (2 / 98)\<close>, and the
  left edge of column 49 is \<open>fl (49 * fl (2 / 98))\<close>, the double just below 1: the id
  of the tile is \<open>0_0\<close>.
\<close>

lemma tile_id_rounded_corner:
  "get_tiles binary64 (\<lambda>g. (0, 0, 2, 1)) [([], Geom ())] (5908722711110091 / 288230376151711744) 1
     = Inr (grid_tiles binary64 0 0 (5882252574524729 / 288230376151711744) 1 98 1 [] (Geom ()))
   \<and> fst (grid_tiles binary64 0 0 (5882252574524729 / 288230376151711744) 1 98 1 [] (Geom ()) ! 49)
     = ''0_0''"
proof -
  have q: "binary64 (576460752303423488 / 5908722711110091) = 1716310833601561 / 17592186044416"
    by (rule binary64_eval [where e = "6" and m = "6865243334406244"]) (simp_all add: pow2_def round_half_even_def Let_def)
  have tw: "binary64 (1 / 49) = 5882252574524729 / 288230376151711744"
    by (rule binary64_eval [where e = "- 6" and m = "5882252574524729"]) (simp_all add: pow2_def round_half_even_def Let_def)
  have p: "binary64 (288230376151711721 / 288230376151711744) = 9007199254740991 / 9007199254740992"
    by (rule binary64_eval [where e = "- 1" and m = "9007199254740991"]) (simp_all add: pow2_def round_half_even_def Let_def)
  have pv: "binary64 (9007199254740991 / 9007199254740992) = 9007199254740991 / 9007199254740992"
    using binary64_dyadic [of 9007199254740991 53] by simp
  have run: "get_tiles binary64 (\<lambda>g. (0, 0, 2, 1)) [([], Geom ())] (5908722711110091 / 288230376151711744) 1
     = Inr (grid_tiles binary64 0 0 (5882252574524729 / 288230376151711744) 1 98 1 [] (Geom ()))"
    by (simp add: tiles_of_row_def binary64_numeral binary64_zero binary64_one q tw)
  have "grid_tiles binary64 0 0 (5882252574524729 / 288230376151711744) 1 98 1 [] (Geom ()) ! (49 * nat 1 + 0)
      = (tile_id_of binary64 0 0 (5882252574524729 / 288230376151711744) 1 49 0, [],
         Intersection (box_of (grid_cell binary64 0 0 (5882252574524729 / 288230376151711744) 1 49 0)) (Geom ()))"
    by (rule grid_tiles_nth) simp_all
  then have "fst (grid_tiles binary64 0 0 (5882252574524729 / 288230376151711744) 1 98 1 [] (Geom ()) ! 49)
      = tile_id_of binary64 0 0 (5882252574524729 / 288230376151711744) 1 49 0"
    by simp
  also have "\<dots> = ''0_0''"
    by (simp add: tile_id_of_def cell_edge_def py_int_def binary64_numeral binary64_zero
        binary64_one p pv str_int_examples)
  finally show ?thesis using run by simp
qed




section \<open>Combining the detections\<close>

lemma parts_bad_shape:
  assumes "shape_name \<noteq> ''oval''" "shape_name \<noteq> ''rectangle''"
  shows "polygons_gdf_parts rnd centroid covers label_files ldir image_files idir shape_name tiles
     = (if \<exists>t \<in> set tiles. has_both_files label_files ldir image_files idir (fst t)
        then Inl (shape_error shape_name) else Inr [])"
proof (induction tiles)
  case Nil
  show ?case by simp
next
  case (Cons t tiles)
  obtain tile_id tile_inner where t: "t = (tile_id, tile_inner)" by (cases t)
  show ?case
    unfolding t using assms Cons.IH
    by (auto simp add: has_both_files_def polygons_of_labels_def split: option.splits)
qed

lemma parts_good_shape:
  assumes "shape_name = ''oval'' \<or> shape_name = ''rectangle''"
  shows "polygons_gdf_parts rnd centroid covers label_files ldir image_files idir shape_name tiles
     = Inr (map (\<lambda>t. clip_by_centroid centroid covers (snd t)
                    (map fst (tile_detections rnd shape_name label_files ldir image_files idir (fst t)),
                     map snd (tile_detections rnd shape_name label_files ldir image_files idir (fst t))))
             (filter (\<lambda>t. has_both_files label_files ldir image_files idir (fst t)) tiles))"
proof (induction tiles)
  case Nil
  show ?case by simp
next
  case (Cons t tiles)
  obtain tile_id tile_inner where t: "t = (tile_id, tile_inner)" by (cases t)
  have zipped: "map fst (zip (fst part) (snd part)) = fst part \<and> map snd (zip (fst part) (snd part)) = snd part"
    if "polygons_of_labels rnd shape_name ls b = Inr part" for ls b part
    using that assms
    by (auto simp add: polygons_of_labels_def bboxes_from_yolo_output_def ovals_from_yolo_output_def
        Let_def zip_map_fst_snd split: if_splits)
  show ?case
  proof (cases "has_both_files label_files ldir image_files idir tile_id")
    case False
    then show ?thesis
      unfolding t using Cons.IH
      by (auto simp add: has_both_files_def split: option.splits)
  next
    case True
    then obtain ortho ls where f: "image_files (geotiff_path idir tile_id) = Some ortho"
        "label_files (labels_path ldir tile_id) = Some ls"
      by (auto simp add: has_both_files_def)
    define part where "part = (if shape_name = ''oval''
        then ovals_from_yolo_output rnd ls (geotiff_bounds ortho)
        else bboxes_from_yolo_output rnd ls (geotiff_bounds ortho))"
    have p: "polygons_of_labels rnd shape_name ls (geotiff_bounds ortho) = Inr part"
      using assms by (auto simp add: polygons_of_labels_def part_def)
    show ?thesis
      unfolding t using True f p Cons.IH zipped [OF p]
      by (simp add: tile_detections_def)
  qed
qed


lemma shape_error_neq_concat: "shape_error shape_name \<noteq> ValueError ''No objects to concatenate''"
  by (simp add: shape_error_def)

lemma concat_map_filter_empty:
  assumes "\<And>x. \<not> P x \<Longrightarrow> f x = []"
  shows "concat (map f (filter P xs)) = concat (map f xs)"
  using assms by (induction xs) auto

lemma count_list_filter:
  "count_list (filter P xs) d = (if P d then count_list xs d else 0)"
  by (induction xs) auto

lemma count_list_concat_map:
  "count_list (concat (map f xs)) d = sum_list (map (\<lambda>x. count_list (f x) d) xs)"
  by (induction xs) auto

lemma sum_list_single:
  fixes g :: "'a \<Rightarrow> nat"
  assumes "k < length xs" "\<forall>l < length xs. l \<noteq> k \<longrightarrow> g (xs ! l) = 0"
  shows "sum_list (map g xs) = g (xs ! k)"
proof -
  have "sum_list (map g xs) = (\<Sum>i = 0..<length xs. g (xs ! i))"
    by (simp add: sum_list_sum_nth)
  also have "\<dots> = (\<Sum>i = 0..<length xs. if k = i then g (xs ! k) else 0)"
    by (rule sum.cong) (use assms(2) in auto)
  also have "\<dots> = g (xs ! k)"
    using assms(1) by (simp add: sum.delta)
  finally show ?thesis .
qed


lemma combine_Inr:
  assumes "combine_yolo_outputs rnd centroid covers label_files ldir image_files idir tiles shape_name
             = Inr out"
  shows "out = concat (map (\<lambda>t. filter (\<lambda>row. covers (snd t) (centroid (snd row)))
                  (tile_detections rnd shape_name label_files ldir image_files idir (fst t))) tiles)"
proof -
  have good: "shape_name = ''oval'' \<or> shape_name = ''rectangle''"
  proof (rule ccontr)
    assume "\<not> ?thesis"
    then have "shape_name \<noteq> ''oval''" "shape_name \<noteq> ''rectangle''" by simp_all
    from parts_bad_shape [OF this, of rnd centroid covers label_files ldir image_files idir tiles]
      assms show False
      by (auto simp add: combine_yolo_outputs_def pd_concat_def split: if_splits)
  qed
  let ?dets = "\<lambda>t. tile_detections rnd shape_name label_files ldir image_files idir (fst t)"
  let ?part = "\<lambda>t. filter (\<lambda>row. covers (snd t) (centroid (snd row))) (?dets t)"
  have clip: "clip_by_centroid centroid covers (snd t) (map fst (?dets t), map snd (?dets t)) = ?part t" for t
    by (simp add: clip_by_centroid_def zip_map_fst_snd)
  have skipped: "?part t = []" if "\<not> has_both_files label_files ldir image_files idir (fst t)" for t
    using that by (auto simp add: tile_detections_def has_both_files_def split: option.splits)
  have "out = concat (map ?part (filter (\<lambda>t. has_both_files label_files ldir image_files idir (fst t)) tiles))"
    using assms unfolding combine_yolo_outputs_def parts_good_shape [OF good] clip
    by (simp add: pd_concat_def split: if_splits)
  also have "\<dots> = concat (map ?part tiles)"
    by (rule concat_map_filter_empty) (rule skipped)
  finally show ?thesis .
qed

text \<open>
  C2, as amended.  When the reconstruction returns, its output is the concatenation, over
  the tiles in order, of each tile's contribution, and a tile's contribution is the rows
  read for the tile whose centroid the tile's inner geometry covers: a detected polygon of
  a tile is kept there if and only if its centroid lies in that tile's inner tile.  So a
  row whose centroid lies in the inner tile of exactly one tile occurs in the output as
  often as that tile's label file yields it, however many other tiles detected it too:
  once when the owning tile detected it once, not at all when only other tiles detected
  it, twice when the owning tile's label file has it twice.
\<close>

theorem centroid_deduplication:
  assumes "combine_yolo_outputs rnd centroid covers label_files ldir image_files idir tiles shape_name
             = Inr out"
  shows "out = concat (map (\<lambda>t. filter (\<lambda>row. covers (snd t) (centroid (snd row)))
                  (tile_detections rnd shape_name label_files ldir image_files idir (fst t))) tiles)
       \<and> (\<forall>k < length tiles.
             covers (snd (tiles ! k)) (centroid (snd d))
           \<and> (\<forall>l < length tiles. l \<noteq> k \<longrightarrow> \<not> covers (snd (tiles ! l)) (centroid (snd d)))
           \<longrightarrow> count_list out d
                 = count_list (tile_detections rnd shape_name label_files ldir image_files idir
                     (fst (tiles ! k))) d)"
proof (intro conjI allI impI)
  let ?dets = "\<lambda>t. tile_detections rnd shape_name label_files ldir image_files idir (fst t)"
  let ?part = "\<lambda>t. filter (\<lambda>row. covers (snd t) (centroid (snd row))) (?dets t)"
  show out: "out = concat (map ?part tiles)" by (rule combine_Inr [OF assms])
  fix k
  assume k: "k < length tiles"
    and only: "covers (snd (tiles ! k)) (centroid (snd d))
           \<and> (\<forall>l < length tiles. l \<noteq> k \<longrightarrow> \<not> covers (snd (tiles ! l)) (centroid (snd d)))"
  have others: "\<forall>l < length tiles. l \<noteq> k \<longrightarrow> count_list (?part (tiles ! l)) d = 0"
    using only by (simp add: count_list_filter)
  have "count_list out d = sum_list (map (\<lambda>t. count_list (?part t) d) tiles)"
    unfolding out by (rule count_list_concat_map)
  also have "\<dots> = count_list (?part (tiles ! k)) d"
    by (rule sum_list_single [OF k others])
  also have "\<dots> = count_list (?dets (tiles ! k)) d"
    using only by (simp add: count_list_filter)
  finally show "count_list out d = count_list (?dets (tiles ! k)) d" .
qed


theorem centroid_deduplication_witness:
  "combine_yolo_outputs exact
     (\<lambda>d. case d of Polygon [a, b, c, e] \<Rightarrow> ((fst a + fst c) / 2, (snd a + snd c) / 2) | _ \<Rightarrow> (0, 0))
     (\<lambda>g p. p \<in> rect g)
     [''labels/tile_0_0.txt'' \<mapsto> [(0, 11 / 14, 1 / 2, 1 / 7, 1 / 7)],
      ''labels/tile_10_0.txt'' \<mapsto> [(0, 1 / 14, 1 / 2, 1 / 7, 1 / 7)]]
     ''labels''
     [''images/tile_0_0.tif'' \<mapsto> \<lparr>header_height = 15, header_width = 15, header_scale = (1, 1),
          pixel2geo = (\<lambda>p. (fst p - 2, 12 - snd p)), band_count = 3\<rparr>,
      ''images/tile_10_0.tif'' \<mapsto> \<lparr>header_height = 15, header_width = 15, header_scale = (1, 1),
          pixel2geo = (\<lambda>p. (fst p + 8, 12 - snd p)), band_count = 3\<rparr>]
     ''images''
     [(''0_0'', (0, 0, 10, 10)), (''10_0'', (10, 0, 20, 10))]
     ''rectangle''
   = Inr [(0, Polygon [(8, 4), (8, 6), (10, 6), (10, 4)])]
   \<and> count_list [(0, Polygon [(8, 4), (8, 6), (10, 6), (10, 4)])]
        (0, Polygon [(8, 4), (8, 6), (10, 6), (10, 4)]) = 1"
proof -
  let ?centroid = "\<lambda>d. case d of Polygon [a, b, c, e] \<Rightarrow> ((fst a + fst c) / 2, (snd a + snd c) / 2)
      | _ \<Rightarrow> (0::real, 0::real)"
  let ?covers = "\<lambda>g p. p \<in> rect g"
  let ?labels = "[''labels/tile_0_0.txt'' \<mapsto> [(0::int, 11 / 14 :: real, 1 / 2 :: real, 1 / 7 :: real, 1 / 7 :: real)],
      ''labels/tile_10_0.txt'' \<mapsto> [(0, 1 / 14, 1 / 2, 1 / 7, 1 / 7)]]"
  let ?images = "[''images/tile_0_0.tif'' \<mapsto> \<lparr>header_height = 15, header_width = 15, header_scale = (1, 1),
          pixel2geo = (\<lambda>p. (fst p - 2, 12 - snd p)), band_count = 3\<rparr>,
      ''images/tile_10_0.tif'' \<mapsto> \<lparr>header_height = 15, header_width = 15, header_scale = (1, 1),
          pixel2geo = (\<lambda>p. (fst p + 8, 12 - snd p)), band_count = 3\<rparr>]"
  let ?tiles = "[(''0_0'', (0, 0, 10, 10)), (''10_0'', (10::real, 0::real, 20::real, 10::real))]"
  let ?d = "(0::int, Polygon [(8, 4), (8, 6), (10, 6), (10, 4)])"
  have run: "combine_yolo_outputs exact ?centroid ?covers ?labels ''labels'' ?images ''images'' ?tiles
      ''rectangle'' = Inr [?d]"
    by (simp add: combine_yolo_outputs_def polygons_of_labels_def bboxes_from_yolo_output_def
        bbox_from_line_def clip_by_centroid_def geotiff_path_def labels_path_def geotiff_bounds_def
        pd_concat_def exact_def rect_def Let_def)
  have dets: "tile_detections exact ''rectangle'' ?labels ''labels'' ?images ''images'' ''0_0'' = [?d]"
    by (simp add: tile_detections_def polygons_of_labels_def bboxes_from_yolo_output_def
        bbox_from_line_def geotiff_path_def labels_path_def geotiff_bounds_def exact_def Let_def)
  have "count_list [?d] ?d
      = count_list (tile_detections exact ''rectangle'' ?labels ''labels'' ?images ''images''
          (fst (?tiles ! 0))) ?d"
    using centroid_deduplication [OF run, of ?d, THEN conjunct2, rule_format, of 0]
    by (simp add: rect_def less_Suc_eq)
  then show ?thesis using run dets by simp
qed


text \<open>
  As the claim states it, exactly once, it fails in both directions.  Two tiles lie side
  by side, with inner tiles \<open>(0, 0, 10, 10)\<close> and \<open>(10, 0, 20, 10)\<close> and images that
  overlap by the buffer.  The rectangle with the corners \<open>(8, 4)\<close> and \<open>(10, 6)\<close> has
  its centroid \<open>(9, 5)\<close> in the first inner tile only.  Detected by the second tile
  alone, it is dropped from the output; written twice in the label file of the first
  tile, it comes out twice.
\<close>

theorem centroid_deduplication_counterexample:
  "(9, 5) \<in> rect (0, 0, 10, 10) \<and> (9 :: real, 5 :: real) \<notin> rect (10, 0, 20, 10)
   \<and> tile_detections binary64 ''rectangle''
       [''labels/tile_0_0.txt'' \<mapsto> [], ''labels/tile_10_0.txt'' \<mapsto> [(0, 1 / 8, 1 / 2, 1 / 8, 1 / 8)]]
       ''labels''
       [''images/tile_0_0.tif'' \<mapsto> \<lparr>header_height = 17, header_width = 17, header_scale = (1, 1),
            pixel2geo = (\<lambda>p. (fst p - 3, 13 - snd p)), band_count = 3\<rparr>,
        ''images/tile_10_0.tif'' \<mapsto> \<lparr>header_height = 17, header_width = 17, header_scale = (1, 1),
            pixel2geo = (\<lambda>p. (fst p + 7, 13 - snd p)), band_count = 3\<rparr>]
       ''images'' ''10_0''
     = [(0, Polygon [(8, 4), (8, 6), (10, 6), (10, 4)])]
   \<and> combine_yolo_outputs binary64
       (\<lambda>d. case d of Polygon [a, b, c, e] \<Rightarrow> ((fst a + fst c) / 2, (snd a + snd c) / 2) | _ \<Rightarrow> (0, 0))
       (\<lambda>g p. p \<in> rect g)
       [''labels/tile_0_0.txt'' \<mapsto> [], ''labels/tile_10_0.txt'' \<mapsto> [(0, 1 / 8, 1 / 2, 1 / 8, 1 / 8)]]
       ''labels''
       [''images/tile_0_0.tif'' \<mapsto> \<lparr>header_height = 17, header_width = 17, header_scale = (1, 1),
            pixel2geo = (\<lambda>p. (fst p - 3, 13 - snd p)), band_count = 3\<rparr>,
        ''images/tile_10_0.tif'' \<mapsto> \<lparr>header_height = 17, header_width = 17, header_scale = (1, 1),
            pixel2geo = (\<lambda>p. (fst p + 7, 13 - snd p)), band_count = 3\<rparr>]
       ''images''
       [(''0_0'', (0, 0, 10, 10)), (''10_0'', (10, 0, 20, 10))]
       ''rectangle''
     = Inr []
   \<and> combine_yolo_outputs binary64
       (\<lambda>d. case d of Polygon [a, b, c, e] \<Rightarrow> ((fst a + fst c) / 2, (snd a + snd c) / 2) | _ \<Rightarrow> (0, 0))
       (\<lambda>g p. p \<in> rect g)
       [''labels/tile_0_0.txt'' \<mapsto> [(0, 3 / 4, 1 / 2, 1 / 8, 1 / 8), (0, 3 / 4, 1 / 2, 1 / 8, 1 / 8)],
        ''labels/tile_10_0.txt'' \<mapsto> []]
       ''labels''
       [''images/tile_0_0.tif'' \<mapsto> \<lparr>header_height = 17, header_width = 17, header_scale = (1, 1),
            pixel2geo = (\<lambda>p. (fst p - 3, 13 - snd p)), band_count = 3\<rparr>,
        ''images/tile_10_0.tif'' \<mapsto> \<lparr>header_height = 17, header_width = 17, header_scale = (1, 1),
            pixel2geo = (\<lambda>p. (fst p + 7, 13 - snd p)), band_count = 3\<rparr>]
       ''images''
       [(''0_0'', (0, 0, 10, 10)), (''10_0'', (10, 0, 20, 10))]
       ''rectangle''
     = Inr [(0, Polygon [(8, 4), (8, 6), (10, 6), (10, 4)]),
            (0, Polygon [(8, 4), (8, 6), (10, 6), (10, 4)])]"
  by (simp add: combine_yolo_outputs_def tile_detections_def polygons_of_labels_def
      bboxes_from_yolo_output_def bbox_from_line_def clip_by_centroid_def geotiff_path_def
      labels_path_def geotiff_bounds_def pd_concat_def rect_def Let_def
      binary64_numeral binary64_zero binary64_one)

text \<open>
  C10, as amended.  With a shape that is neither \<^verbatim>\<open>rectangle\<close> nor \<^verbatim>\<open>oval\<close>, the
  run raises the unsupported-shape error if and only if some tile of the tiles shapefile
  has both its image file and its label file.  When no tile has both, the shape error
  is not raised; the run does not complete either, the concatenation of no parts raises
  \<^verbatim>\<open>ValueError\<close> "No objects to concatenate" and nothing is written.
\<close>

theorem shape_error_needs_both_files:
  assumes "shape_name \<noteq> ''oval''" "shape_name \<noteq> ''rectangle''"
  shows "((combine_yolo_outputs rnd centroid covers label_files ldir image_files idir tiles shape_name
            = Inl (shape_error shape_name))
          = (\<exists>t \<in> set tiles. has_both_files label_files ldir image_files idir (fst t)))
       \<and> ((\<forall>t \<in> set tiles. \<not> has_both_files label_files ldir image_files idir (fst t)) \<longrightarrow>
            combine_yolo_outputs rnd centroid covers label_files ldir image_files idir tiles shape_name
              = Inl (ValueError ''No objects to concatenate''))"
  using shape_error_neq_concat [of shape_name]
  by (auto simp add: combine_yolo_outputs_def parts_bad_shape [OF assms] pd_concat_def)

theorem shape_error_needs_both_files_witness:
  "combine_yolo_outputs exact (\<lambda>d. (0, 0)) (\<lambda>g p. True) Map.empty ''labels'' Map.empty ''images''
     [(''0_0'', ())] ''triangle'' \<noteq> Inl (shape_error ''triangle'')
   \<and> combine_yolo_outputs exact (\<lambda>d. (0, 0)) (\<lambda>g p. True) Map.empty ''labels'' Map.empty ''images''
     [(''0_0'', ())] ''triangle'' = Inl (ValueError ''No objects to concatenate'')
   \<and> combine_yolo_outputs exact (\<lambda>d. (0, 0)) (\<lambda>g p. True)
       [''labels/tile_0_0.txt'' \<mapsto> []] ''labels''
       [''images/tile_0_0.tif'' \<mapsto> \<lparr>header_height = 1, header_width = 1, header_scale = (1, 1),
           pixel2geo = (\<lambda>p. p), band_count = 3\<rparr>] ''images''
     [(''0_0'', ())] ''triangle'' = Inl (shape_error ''triangle'')"
  using shape_error_needs_both_files [of "''triangle''" exact "\<lambda>d. (0, 0)" "\<lambda>g p. True"
      Map.empty "''labels''" Map.empty "''images''" "[(''0_0'', ())]"]
    shape_error_needs_both_files [of "''triangle''" exact "\<lambda>d. (0, 0)" "\<lambda>g p. True"
      "[''labels/tile_0_0.txt'' \<mapsto> []]" "''labels''"
      "[''images/tile_0_0.tif'' \<mapsto> \<lparr>header_height = 1, header_width = 1, header_scale = (1, 1),
           pixel2geo = (\<lambda>p. p), band_count = 3\<rparr>]" "''images''" "[(''0_0'', ())]"]
  by (simp add: has_both_files_def geotiff_path_def labels_path_def shape_error_def)

text \<open>
  The run with an unsupported shape and no files does not complete, as the claim has it,
  by writing an empty output.
\<close>

theorem no_files_counterexample:
  "combine_yolo_outputs exact (\<lambda>d. (0, 0)) (\<lambda>g p. True) Map.empty ''labels'' Map.empty ''images''
     [(''0_0'', ())] ''triangle'' = Inl (ValueError ''No objects to concatenate'')"
  by (simp add: combine_yolo_outputs_def pd_concat_def)

section \<open>The tiling scripts: outer tiles and the buffer check\<close>

lemma grid_tiles_geometry:
  assumes "(tile_id, fs, s) \<in> set (grid_tiles rnd min_x min_y tw th n_cols n_rows row_fields g)"
  shows "fs = row_fields \<and> (\<exists>i j. s = Intersection (box_of (grid_cell rnd min_x min_y tw th i j)) g)"
  using assms by (auto simp add: grid_tiles_def)

lemma tiles_of_row_geometry:
  assumes "tiles_of_row rnd bounds_of mw mh (row_fields, g) = Inr ts" "(tile_id, fs, s) \<in> set ts"
  shows "fs = row_fields \<and> (\<exists>b. s = Intersection (box_of b) g)"
proof -
  obtain min_x min_y max_x max_y where b: "bounds_of g = (min_x, min_y, max_x, max_y)"
    by (cases "bounds_of g")
  have "\<exists>tw th n_cols n_rows. ts = grid_tiles rnd min_x min_y tw th n_cols n_rows row_fields g"
    using assms(1) b by (auto simp add: tiles_of_row_def Let_def split: if_splits)
  then show ?thesis using assms(2) grid_tiles_geometry by blast
qed

lemma get_tiles_geometry:
  assumes "get_tiles rnd bounds_of areas mw mh = Inr ts" "(tile_id, fs, s) \<in> set ts"
  shows "\<exists>g b. (fs, g) \<in> set areas \<and> s = Intersection (box_of b) g"
  using assms
proof (induction areas arbitrary: ts)
  case Nil
  then show ?case by simp
next
  case (Cons row areas)
  obtain row_fields g where row: "row = (row_fields, g)" by (cases row)
  from Cons.prems(1) obtain ts1 ts2 where
    r: "tiles_of_row rnd bounds_of mw mh (row_fields, g) = Inr ts1"
    and rest: "get_tiles rnd bounds_of areas mw mh = Inr ts2" and ts: "ts = ts1 @ ts2"
    unfolding row by (auto split: sum.splits)
  show ?case
  proof (cases "(tile_id, fs, s) \<in> set ts1")
    case True
    from tiles_of_row_geometry [OF r True] obtain b where
      "fs = row_fields" "s = Intersection (box_of b) g" by blast
    then show ?thesis unfolding row by (intro exI [of _ g] exI [of _ b]) simp
  next
    case False
    then have "(tile_id, fs, s) \<in> set ts2" using Cons.prems(2) ts by simp
    from Cons.IH [OF rest this] obtain g' b where
      "(fs, g') \<in> set areas" "s = Intersection (box_of b) g'" by blast
    then show ?thesis by (intro exI [of _ g'] exI [of _ b]) simp
  qed
qed

lemma points_box_of: "points pts buf (box_of b) = rect b"
  by (cases b) (simp add: box_of_def)

lemma with_outer_tiles_containment:
  assumes "get_tiles rnd bounds_of areas mw mh = Inr ts"
    and "\<forall>row \<in> set areas. points pts buf (snd row) \<subseteq> rect bounds"
    and "0 \<le> buffer_m" "\<forall>d S. 0 \<le> d \<longrightarrow> S \<subseteq> buf d S"
    and "(tile_id, fs, inner, outer) \<in> set (with_outer_tiles ts buffer_m bounds)"
  shows "outer = ClipRect (Buffer inner buffer_m) bounds
       \<and> points pts buf inner \<subseteq> points pts buf outer
       \<and> points pts buf outer \<subseteq> rect bounds"
proof -
  have mem: "(tile_id, fs, inner) \<in> set ts" and outer: "outer = outer_tile inner buffer_m bounds"
    using assms(5) by (auto simp add: with_outer_tiles_def)
  obtain g b where g: "(fs, g) \<in> set areas" and inner: "inner = Intersection (box_of b) g"
    using get_tiles_geometry [OF assms(1) mem] by blast
  have "points pts buf g \<subseteq> rect bounds" using assms(2) g by force
  then have in_bounds: "points pts buf inner \<subseteq> rect bounds" unfolding inner by auto
  have grown: "points pts buf inner \<subseteq> buf buffer_m (points pts buf inner)"
    using assms(3,4) by blast
  show ?thesis
    unfolding outer outer_tile_def using in_bounds grown by auto
qed

text \<open>
  C4.  For every tile either script generates, the inner geometry is a grid cell
  intersected with its Area, the outer geometry is the inner geometry buffered by the
  buffer distance and clipped to the raster bounds, the inner geometry is contained in
  the outer geometry and the outer geometry in the raster bounds.  The Areas are
  those clipped to the raster bounds, and the buffer distance is not negative;
  of shapely's buffer it is assumed that, for a distance that is not negative, the
  buffered geometry covers the geometry.
\<close>

theorem outer_containment:
  assumes "tile_orthophoto_tiles rnd bounds_of orthophoto areas max_tile_size_px buffer_m = Inr tiles
         \<or> prepare_yolo_dataset_tiles rnd bounds_of orthophoto areas max_outer_tile_width_px
              max_outer_tile_height_px buffer_m = Inr tiles"
    and "\<forall>row \<in> set areas. points pts buf (snd row) \<subseteq> rect (geotiff_bounds orthophoto)"
    and "0 \<le> buffer_m" "\<forall>d S. 0 \<le> d \<longrightarrow> S \<subseteq> buf d S"
    and "(tile_id, fs, inner, outer) \<in> set tiles"
  shows "(\<exists>g b. (fs, g) \<in> set areas \<and> inner = Intersection (box_of b) g)
       \<and> outer = ClipRect (Buffer inner buffer_m) (geotiff_bounds orthophoto)
       \<and> points pts buf inner \<subseteq> points pts buf outer
       \<and> points pts buf outer \<subseteq> rect (geotiff_bounds orthophoto)"
proof -
  have "\<exists>mw mh ts. get_tiles rnd bounds_of areas mw mh = Inr ts
      \<and> tiles = with_outer_tiles ts buffer_m (geotiff_bounds orthophoto)"
    using assms(1)
  proof
    assume "tile_orthophoto_tiles rnd bounds_of orthophoto areas max_tile_size_px buffer_m = Inr tiles"
    then show ?thesis
      by (auto simp add: tile_orthophoto_tiles_def Let_def split: if_splits sum.splits)
  next
    assume "prepare_yolo_dataset_tiles rnd bounds_of orthophoto areas max_outer_tile_width_px
              max_outer_tile_height_px buffer_m = Inr tiles"
    then show ?thesis
      by (auto simp add: prepare_yolo_dataset_tiles_def Let_def split: sum.splits)
  qed
  then obtain mw mh ts where
    ts: "get_tiles rnd bounds_of areas mw mh = Inr ts"
    and tiles: "tiles = with_outer_tiles ts buffer_m (geotiff_bounds orthophoto)"
    by blast
  have mem: "(tile_id, fs, inner) \<in> set ts"
    using assms(5) unfolding tiles by (auto simp add: with_outer_tiles_def)
  have area: "\<exists>g b. (fs, g) \<in> set areas \<and> inner = Intersection (box_of b) g"
    by (rule get_tiles_geometry [OF ts mem])
  have rest: "outer = ClipRect (Buffer inner buffer_m) (geotiff_bounds orthophoto)
       \<and> points pts buf inner \<subseteq> points pts buf outer
       \<and> points pts buf outer \<subseteq> rect (geotiff_bounds orthophoto)"
    by (rule with_outer_tiles_containment [OF ts assms(2,3,4)]) (use assms(5) tiles in simp)
  show ?thesis using area rest by blast
qed


theorem outer_containment_witness:
  "points rect (\<lambda>d S. {p. \<exists>q \<in> S. \<bar>fst p - fst q\<bar> \<le> d \<and> \<bar>snd p - snd q\<bar> \<le> d})
       (Intersection (Box 0 0 50 50) (Geom (0, 0, 100, 100)))
     \<subseteq> points rect (\<lambda>d S. {p. \<exists>q \<in> S. \<bar>fst p - fst q\<bar> \<le> d \<and> \<bar>snd p - snd q\<bar> \<le> d})
       (ClipRect (Buffer (Intersection (Box 0 0 50 50) (Geom (0, 0, 100, 100))) 1) (0, 0, 100, 100))
   \<and> points rect (\<lambda>d S. {p. \<exists>q \<in> S. \<bar>fst p - fst q\<bar> \<le> d \<and> \<bar>snd p - snd q\<bar> \<le> d})
       (ClipRect (Buffer (Intersection (Box 0 0 50 50) (Geom (0, 0, 100, 100))) 1) (0, 0, 100, 100))
     \<subseteq> rect (0, 0, 100, 100)"
proof -
  let ?bounds_of = "\<lambda>s. case s of Geom b \<Rightarrow> b | _ \<Rightarrow> (0::real, 0::real, 0::real, 0::real)"
  let ?ortho = "\<lparr>header_height = 101, header_width = 101, header_scale = (1, 1),
      pixel2geo = (\<lambda>p. (fst p, 100 - snd p)), band_count = 3\<rparr>"
  let ?areas = "[([(''split'', ''train'')], Geom (0::real, 0::real, 100::real, 100::real))]"
  let ?buf = "\<lambda>d S. {p. \<exists>q \<in> S. \<bar>fst p - fst q\<bar> \<le> d \<and> \<bar>snd p - snd q\<bar> \<le> (d::real)}"
  let ?inner = "\<lambda>x y. Intersection (Box x y (x + 50) (y + 50)) (Geom (0::real, 0::real, 100::real, 100::real))"
  let ?tile = "\<lambda>id x y. (id, [(''split'', ''train'')], ?inner x y,
      ClipRect (Buffer (?inner x y) 1) (0, 0, 100, 100))"
  have b: "geotiff_bounds ?ortho = (0, 0, 100, 100)"
    by (simp add: geotiff_bounds_def)
  have d: "binary64 (25 / 16) = 25 / 16"
    using binary64_dyadic [of 25 4] by simp
  have run: "tile_orthophoto_tiles binary64 ?bounds_of ?ortho ?areas 66 1
      = Inr [?tile ''0_0'' 0 0, ?tile ''0_50'' 0 50, ?tile ''50_0'' 50 0, ?tile ''50_50'' 50 50]"
    by (simp add: tile_orthophoto_tiles_def b tiles_of_row_def grid_tiles_def tile_id_of_def
        grid_cell_def cell_edge_def box_of_def py_int_def with_outer_tiles_def outer_tile_def
        binary64_numeral binary64_zero binary64_one d str_int_examples upt_2)
  have contract: "\<forall>d S. 0 \<le> d \<longrightarrow> S \<subseteq> ?buf d S"
  proof (intro allI impI subsetI)
    fix d :: real and S :: "point set" and p
    assume "0 \<le> d" "p \<in> S"
    then show "p \<in> ?buf d S" by (auto intro!: bexI [of _ p])
  qed
  show ?thesis
    using outer_containment [where pts = rect and buf = ?buf and bounds_of = ?bounds_of
        and rnd = binary64
        and orthophoto = ?ortho and areas = ?areas and buffer_m = 1 and max_tile_size_px = 66
        and tile_id = "''0_0''" and fs = "[(''split'', ''train'')]"
        and inner = "?inner 0 0" and outer = "ClipRect (Buffer (?inner 0 0) 1) (0, 0, 100, 100)",
        OF disjI1, OF run _ _ contract]
    by (simp add: b)
qed

text \<open>
  C7.  \<^verbatim>\<open>tile_orthophoto.py\<close> asserts the precondition before it writes anything.
\<close>

lemma tile_orthophoto_fails_fast:
  assumes "\<not> (rnd (2 * buffer_m) < rnd (fst (header_scale orthophoto) * rnd (of_int max_tile_size_px))
            \<and> rnd (2 * buffer_m) < rnd (snd (header_scale orthophoto) * rnd (of_int max_tile_size_px)))"
  shows "tile_orthophoto_main rnd bounds_of orthophoto areas max_tile_size_px buffer_m outdir
         = ([], Some buffer_assertion)"
  using assms by (auto simp add: tile_orthophoto_main_def tile_orthophoto_tiles_def Let_def)

text \<open>
  \<^verbatim>\<open>prepare_yolo_dataset.py\<close> has no such assertion.  With a scale of 1, tiles of
  at most 10 pixels and a buffer of 10, twice the buffer is not less than the tile
  size: the maximum inner tile size is -10, an Area 100 wide gets -10 columns and so
  no tile, and the script replaces the output directory and writes
  \<^verbatim>\<open>data.yaml\<close> without any error, where \<^verbatim>\<open>tile_orthophoto.py\<close> stops at its
  assertion on the same input.  The numbers of this run are whole and small, so the run
  is the same computed exactly and computed with doubles.
\<close>

theorem prepare_yolo_dataset_skips_buffer_check:
  "prepare_yolo_dataset_main exact (\<lambda>s. (0, 0, 100, 100)) (\<lambda>tile. [])
     \<lparr>header_height = 101, header_width = 101, header_scale = (1, 1),
      pixel2geo = (\<lambda>p. (fst p, 100 - snd p)), band_count = 3\<rparr>
     [([(''split'', ''train'')], Geom ())] 10 10 10 ''out''
   = ([ReplaceDir ''out'', WriteYaml ''out/data.yaml''], None)
   \<and> tile_orthophoto_main exact (\<lambda>s. (0, 0, 100, 100))
     \<lparr>header_height = 101, header_width = 101, header_scale = (1, 1),
      pixel2geo = (\<lambda>p. (fst p, 100 - snd p)), band_count = 3\<rparr>
     [([(''split'', ''train'')], Geom ())] 10 10 ''out''
   = ([], Some (AssertionError ''Maximum tile size smaller than twice the buffer size.''))
   \<and> prepare_yolo_dataset_main binary64 (\<lambda>s. (0, 0, 100, 100)) (\<lambda>tile. [])
     \<lparr>header_height = 101, header_width = 101, header_scale = (1, 1),
      pixel2geo = (\<lambda>p. (fst p, 100 - snd p)), band_count = 3\<rparr>
     [([(''split'', ''train'')], Geom ())] 10 10 10 ''out''
   = ([ReplaceDir ''out'', WriteYaml ''out/data.yaml''], None)
   \<and> tile_orthophoto_main binary64 (\<lambda>s. (0, 0, 100, 100))
     \<lparr>header_height = 101, header_width = 101, header_scale = (1, 1),
      pixel2geo = (\<lambda>p. (fst p, 100 - snd p)), band_count = 3\<rparr>
     [([(''split'', ''train'')], Geom ())] 10 10 ''out''
   = ([], Some (AssertionError ''Maximum tile size smaller than twice the buffer size.''))"
  by (simp add: prepare_yolo_dataset_main_def prepare_yolo_dataset_tiles_def tiles_of_row_def
      grid_tiles_def with_outer_tiles_def prepare_yolo_dataset_write_def and_then_def
      tile_orthophoto_main_def tile_orthophoto_tiles_def buffer_assertion_def
      exact_def binary64_numeral binary64_zero binary64_one)

end
